theory Spec2Isabelle
  imports Main "HOL-Library.Sublist"
begin

section \<open>Strings as the scraper uses them\<close>

text \<open>
  The scraper (\<^verbatim>\<open>src/integrations/linkedin-scraper.ts\<close>) works on JavaScript strings.
  A string is modelled as a \<^typ>\<open>string\<close> whose characters are the code units below 256
  (ASCII and Latin-1); every keyword, separator and pattern of the source is ASCII.
  \<^verbatim>\<open>toLowerCase\<close> maps \<^verbatim>\<open>A-Z\<close> and the Latin-1 capitals to their lower-case letters and keeps
  the length; \<^verbatim>\<open>\s\<close> and \<^verbatim>\<open>trim\<close> use the white space and line terminators of that range.
\<close>

definition toLowerChar :: "char \<Rightarrow> char" where
  "toLowerChar c =
     (let n = (of_char c :: nat)
      in if (65 \<le> n \<and> n \<le> 90) \<or> (192 \<le> n \<and> n \<le> 222 \<and> n \<noteq> 215)
         then char_of (n + 32) else c)"

definition toLowerCase :: "string \<Rightarrow> string" where
  "toLowerCase s = map toLowerChar s"

text \<open>\<^verbatim>\<open>\s\<close>: tab, line feed, vertical tab, form feed, carriage return, space, no-break space.\<close>

definition isSpace :: "char \<Rightarrow> bool" where
  "isSpace c = (let n = (of_char c :: nat) in (9 \<le> n \<and> n \<le> 13) \<or> n = 32 \<or> n = 160)"

text \<open>\<^verbatim>\<open>\d\<close> and \<^verbatim>\<open>\w\<close>.\<close>

definition isDigit :: "char \<Rightarrow> bool" where
  "isDigit c = (let n = (of_char c :: nat) in 48 \<le> n \<and> n \<le> 57)"

definition isWordChar :: "char \<Rightarrow> bool" where
  "isWordChar c =
     (let n = (of_char c :: nat)
      in (48 \<le> n \<and> n \<le> 57) \<or> (65 \<le> n \<and> n \<le> 90) \<or> (97 \<le> n \<and> n \<le> 122) \<or> n = 95)"

text \<open>\<^verbatim>\<open>s.includes(t)\<close>: \<open>t\<close> occurs in \<open>s\<close> as a contiguous run.\<close>

fun includesStr :: "string \<Rightarrow> string \<Rightarrow> bool" where
  "includesStr [] t = (t = [])"
| "includesStr (c # cs) t = (prefix t (c # cs) \<or> includesStr cs t)"

text \<open>\<^verbatim>\<open>s.startsWith(t)\<close>.\<close>

definition startsWith :: "string \<Rightarrow> string \<Rightarrow> bool" where
  "startsWith s t = prefix t s"

text \<open>\<^verbatim>\<open>s.trim()\<close>.\<close>

definition trim :: "string \<Rightarrow> string" where
  "trim s = rev (dropWhile isSpace (rev (dropWhile isSpace s)))"

text \<open>\<^verbatim>\<open>s.replace(/\s+/g, " ")\<close>: every maximal run of white space becomes one space.\<close>

function collapseWs :: "string \<Rightarrow> string" where
  "collapseWs [] = []"
| "collapseWs (c # cs) =
     (if isSpace c then CHR '' '' # collapseWs (dropWhile isSpace cs)
      else c # collapseWs cs)"
  by pat_completeness auto
termination
  by (relation "measure length") (auto simp: length_dropWhile_le less_Suc_eq_le)

text \<open>\<^verbatim>\<open>s.substring(0, n)\<close>.\<close>

definition substring0 :: "nat \<Rightarrow> string \<Rightarrow> string" where
  "substring0 n s = take n s"

text \<open>\<^verbatim>\<open>a || b\<close> on a string that may be undefined or null: the empty string is falsy.\<close>

definition orElse :: "string option \<Rightarrow> string \<Rightarrow> string" where
  "orElse a b = (case a of None \<Rightarrow> b | Some v \<Rightarrow> if v = [] then b else v)"

text \<open>\<^verbatim>\<open>s || null\<close>.\<close>

definition orNull :: "string \<Rightarrow> string option" where
  "orNull s = (if s = [] then None else Some s)"

section \<open>Regular expressions with backtracking\<close>

text \<open>
  The patterns of the source use character classes, literals, sequence, alternation,
  greedy \<^verbatim>\<open>?\<close>, greedy \<^verbatim>\<open>{m,n}\<close>, and greedy \<^verbatim>\<open>+\<close> and \<^verbatim>\<open>*\<close> on a class. The only assertion
  is the \<^verbatim>\<open>\b\<close> of \<^verbatim>\<open>k\b\<close>: it follows the word character \<^verbatim>\<open>k\<close>, so it holds exactly when no
  word character comes next (\<open>NoWordNext\<close>). \<open>rxm r s\<close> lists what is
  left of \<open>s\<close> after each way \<open>r\<close> can match a prefix of it, in the order in which the
  backtracking matcher of JavaScript tries them: the head of the list is the match it
  returns. The patterns are applied to lower-cased text only and contain no capital,
  so the flag \<^verbatim>\<open>i\<close> changes nothing and literals are compared as they are.
\<close>

datatype rx =
    Cls "char \<Rightarrow> bool"
  | Lit string
  | Seq rx rx
  | Alt rx rx
  | Opt rx
  | Rep nat nat rx
  | PlusC "char \<Rightarrow> bool"
  | StarC "char \<Rightarrow> bool"
  | NoWordNext

text \<open>\<open>reps f m n\<close>: at least \<open>m\<close> and at most \<open>m + n\<close> matches of \<open>f\<close>, as many as possible first.\<close>

fun reps :: "(string \<Rightarrow> string list) \<Rightarrow> nat \<Rightarrow> nat \<Rightarrow> string \<Rightarrow> string list" where
  "reps f (Suc m) n s = concat (map (reps f m n) (f s))"
| "reps f 0 (Suc n) s = concat (map (reps f 0 n) (f s)) @ [s]"
| "reps f 0 0 s = [s]"

fun rxm :: "rx \<Rightarrow> string \<Rightarrow> string list" where
  "rxm (Cls p) s = (case s of [] \<Rightarrow> [] | c # cs \<Rightarrow> if p c then [cs] else [])"
| "rxm (Lit l) s = (if prefix l s then [drop (length l) s] else [])"
| "rxm (Seq a b) s = concat (map (rxm b) (rxm a s))"
| "rxm (Alt a b) s = rxm a s @ rxm b s"
| "rxm (Opt a) s = rxm a s @ [s]"
| "rxm (Rep m n a) s = reps (rxm a) m n s"
| "rxm (PlusC p) s =
     map (\<lambda>k. drop k s) (rev [1 ..< Suc (length (takeWhile p s))])"
| "rxm (StarC p) s =
     map (\<lambda>k. drop k s) (rev [0 ..< Suc (length (takeWhile p s))])"
| "rxm NoWordNext s = (case s of [] \<Rightarrow> [s] | c # _ \<Rightarrow> if isWordChar c then [] else [s])"

text \<open>\<^verbatim>\<open>s.match(r)\<close> without the flag \<^verbatim>\<open>g\<close>: the leftmost match, \<^verbatim>\<open>null\<close> when there is none.\<close>

fun rxfind :: "rx \<Rightarrow> string \<Rightarrow> string option" where
  "rxfind r [] = (case rxm r [] of [] \<Rightarrow> None | rest # _ \<Rightarrow> Some [])"
| "rxfind r (c # cs) =
     (case rxm r (c # cs) of
        [] \<Rightarrow> rxfind r cs
      | rest # _ \<Rightarrow> Some (take (length (c # cs) - length rest) (c # cs)))"

text \<open>\<^verbatim>\<open>/^r$/.test(s)\<close>: some way of matching \<open>r\<close> uses all of \<open>s\<close>.\<close>

definition rxfull :: "rx \<Rightarrow> string \<Rightarrow> bool" where
  "rxfull r s = ([] \<in> set (rxm r s))"

text \<open>\<^verbatim>\<open>r.test(s)\<close>: \<open>r\<close> matches somewhere in \<open>s\<close>.\<close>

definition rxtest :: "rx \<Rightarrow> string \<Rightarrow> bool" where
  "rxtest r s = (rxfind r s \<noteq> None)"

definition alts :: "rx list \<Rightarrow> rx" where
  "alts rs = foldr Alt (butlast rs) (last rs)"

definition seqs :: "rx list \<Rightarrow> rx" where
  "seqs rs = foldr Seq rs (Lit [])"

section \<open>Job context and salary fallback\<close>

record job_context =
  title :: string
  company :: string
  location :: string
  description :: string

definition currency :: rx where
  "currency = Alt (Lit ''$'') (Alt (Lit ''usd'') (Alt (Lit ''aud'') (Alt (Lit ''inr'') (Lit ''eur''))))"

definition kOrThousand :: rx where
  "kOrThousand = Alt (Lit ''k'') (Lit ''000'')"

text \<open>\<^verbatim>\<open>\d{2,3}[,\.]?\d{0,3}\s?(k|000)?\<close>\<close>

definition amount :: rx where
  "amount = seqs [Rep 2 1 (Cls isDigit), Opt (Cls (\<lambda>c. c = CHR '','' \<or> c = CHR ''.'')),
                  Rep 0 3 (Cls isDigit), Opt (Cls isSpace), Opt kOrThousand]"

text \<open>
  \<^verbatim>\<open>/(\$|usd|aud|inr|eur)\s?\d{2,3}[,\.]?\d{0,3}\s?(k|000)?\s?[-to]+\s?(\$|usd|aud|inr|eur)?\s?\d{2,3}[,\.]?\d{0,3}\s?(k|000)?/i\<close>
\<close>

definition salaryRangeRx :: rx where
  "salaryRangeRx =
     seqs [currency, Opt (Cls isSpace), amount, Opt (Cls isSpace),
           PlusC (\<lambda>c. c = CHR ''-'' \<or> c = CHR ''t'' \<or> c = CHR ''o''),
           Opt (Cls isSpace), Opt currency, Opt (Cls isSpace), amount]"

definition salaryText :: "job_context \<Rightarrow> string" where
  "salaryText jc = toLowerCase (location jc @ '' '' @ description jc)"

definition getExpectedSalaryFallback :: "job_context \<Rightarrow> string" where
  "getExpectedSalaryFallback jc =
     (let text = salaryText jc
      in case rxfind salaryRangeRx text of
           Some m \<Rightarrow> trim (collapseWs m)
         | None \<Rightarrow>
             if includesStr text ''australia'' \<or> includesStr text ''sydney'' \<or> includesStr text ''melbourne''
             then ''AUD 130000''
             else if includesStr text ''india'' \<or> includesStr text ''bengaluru'' \<or> includesStr text ''bangalore''
             then ''3500000''
             else ''140000'')"

section \<open>Configuration and the language model\<close>

text \<open>\<^verbatim>\<open>process.env\<close>: a variable is unset or holds a string.\<close>

type_synonym env = "string \<rightharpoonup> string"

record answer_hints =
  sponsorship :: bool
  relocate :: bool
  visa :: string
  yearsExperience :: string
  linkedInUrl :: string
  portfolioUrl :: string
  currentLocation :: string
  resumePath :: string

text \<open>The backslash of a Windows path.\<close>

definition bs :: string where
  "bs = [CHR 0x5C]"

text \<open>The field \<^verbatim>\<open>answerHints\<close> of the class, read from the environment once.\<close>

definition answerHints :: "env \<Rightarrow> answer_hints" where
  "answerHints e =
     \<lparr> sponsorship = (e ''REQUIRES_SPONSORSHIP'' = Some ''true''),
       relocate = (e ''WILLING_TO_RELOCATE'' = Some ''true''),
       visa = orElse (e ''VISA_STATUS'') ''No'',
       yearsExperience = orElse (e ''YEARS_EXPERIENCE'') ''3'',
       linkedInUrl = orElse (e ''LINKEDIN_URL'') [],
       portfolioUrl = orElse (e ''PORTFOLIO_URL'') [],
       currentLocation = orElse (e ''CURRENT_LOCATION'') [],
       resumePath = orElse (e ''RESUME_PATH'')
         (''C:'' @ bs @ ''Users'' @ bs @ ''amans'' @ bs @ ''Downloads'' @ bs @ ''AmanResume_Met.pdf'') \<rparr>"

text \<open>
  \<^verbatim>\<open>LLMResponse<T>\<close> with the fields the scraper reads, \<^verbatim>\<open>success\<close> and \<^verbatim>\<open>data\<close>; a call may
  also throw. For \<^verbatim>\<open>generateJSON\<close> the scraper reads \<^verbatim>\<open>Number(data.choice)\<close>, which is an
  integer or not.
\<close>

datatype llm_response = LlmThrows | LlmResponse bool "string option"

datatype js_number = JsInteger int | JsNotInteger

datatype json_response = JsonThrows | JsonResponse bool "js_number option"

record llm_client =
  generate :: "string \<Rightarrow> llm_response"
  generateJSON :: "string \<Rightarrow> string \<Rightarrow> json_response"

text \<open>\<open>None\<close> stands for \<^verbatim>\<open>!this.llm || !this.llmAvailable\<close>.\<close>

type_synonym llm = "llm_client option"

section \<open>Field intent classifier\<close>

datatype intent =
  Salary | Location | NoticePeriod | LinkedIn | Portfolio | Experience
  | Sponsorship | Relocate | Visa | Generic

fun intentName :: "intent \<Rightarrow> string" where
  "intentName Salary = ''salary''"
| "intentName Location = ''location''"
| "intentName NoticePeriod = ''notice-period''"
| "intentName LinkedIn = ''linkedin''"
| "intentName Portfolio = ''portfolio''"
| "intentName Experience = ''experience''"
| "intentName Sponsorship = ''sponsorship''"
| "intentName Relocate = ''relocate''"
| "intentName Visa = ''visa''"
| "intentName Generic = ''generic''"

definition detectFieldIntent :: "string \<Rightarrow> string \<Rightarrow> intent" where
  "detectFieldIntent fieldContext fieldType =
     (let context = toLowerCase fieldContext
      in if includesStr context ''salary'' \<or> includesStr context ''compensation''
            \<or> includesStr context ''ctc''
         then Salary
         else if includesStr context ''location'' \<or> includesStr context ''city'' then Location
         else if includesStr context ''notice period'' \<or> includesStr context ''join''
                 \<or> includesStr context ''start date''
         then NoticePeriod
         else if includesStr context ''linkedin'' then LinkedIn
         else if includesStr context ''portfolio'' \<or> includesStr context ''website'' then Portfolio
         else if includesStr context ''visa'' \<or> includesStr context ''work authorization''
                 \<or> includesStr context ''work permit''
         then Visa
         else if includesStr context ''sponsor'' \<or> includesStr context ''sponsorship'' then Sponsorship
         else if includesStr context ''relocat'' then Relocate
         else if includesStr context ''experience'' \<or> fieldType = ''number'' then Experience
         else Generic)"

definition yesNo :: "bool \<Rightarrow> string" where
  "yesNo b = (if b then ''Yes'' else ''No'')"

definition getHeuristicFieldAnswer :: "env \<Rightarrow> job_context \<Rightarrow> string \<Rightarrow> string \<Rightarrow> string option" where
  "getHeuristicFieldAnswer e jc fieldContext fieldType =
     (let context = toLowerCase fieldContext; hints = answerHints e
      in if includesStr context ''salary'' \<or> includesStr context ''compensation''
            \<or> includesStr context ''ctc''
         then Some (getExpectedSalaryFallback jc)
         else if includesStr context ''notice period'' \<or> includesStr context ''join''
                 \<or> includesStr context ''start date''
         then Some ''2 weeks''
         else if includesStr context ''linkedin'' then orNull (linkedInUrl hints)
         else if includesStr context ''portfolio'' \<or> includesStr context ''website''
         then orNull (portfolioUrl hints)
         else if includesStr context ''location'' \<or> includesStr context ''city''
         then orNull (currentLocation hints)
         else if includesStr context ''visa'' \<or> includesStr context ''work authorization''
                 \<or> includesStr context ''sponsor''
         then Some (yesNo (sponsorship hints))
         else if includesStr context ''relocat'' then Some (yesNo (relocate hints))
         else if includesStr context ''experience'' \<or> fieldType = ''number''
         then Some (yearsExperience hints)
         else None)"

text \<open>\<^verbatim>\<open>/\$|usd|aud|inr|eur|salary|compensation|ctc|k\b|per\s*(year|annum|hour)/i\<close>\<close>

definition salarySignalRx :: rx where
  "salarySignalRx =
     alts [Lit ''$'', Lit ''usd'', Lit ''aud'', Lit ''inr'', Lit ''eur'', Lit ''salary'',
           Lit ''compensation'', Lit ''ctc'', Seq (Lit ''k'') NoWordNext,
           seqs [Lit ''per'', StarC isSpace, alts [Lit ''year'', Lit ''annum'', Lit ''hour'']]]"

text \<open>\<^verbatim>\<open>-?\d+(\.\d+)?\<close>\<close>

definition numberRx :: rx where
  "numberRx = seqs [Opt (Lit ''-''), PlusC isDigit, Opt (Seq (Lit ''.'') (PlusC isDigit))]"

definition isAnswerCompatibleWithIntent :: "string option \<Rightarrow> intent \<Rightarrow> string \<Rightarrow> bool" where
  "isAnswerCompatibleWithIntent v i fieldType =
     (case v of
        None \<Rightarrow> False
      | Some val \<Rightarrow>
          if val = [] then False
          else
            let normalized = toLowerCase (trim val);
                hasSalarySignal = rxtest salarySignalRx normalized;
                hasDigits = rxtest (Cls isDigit) normalized
            in if i = Location then \<not> hasSalarySignal
               else if i = Salary then hasSalarySignal \<or> hasDigits
               else if i = Experience \<or> fieldType = ''number'' then rxfull numberRx normalized
               else if i = Sponsorship \<or> i = Relocate \<or> i = Visa
               then normalized = ''yes'' \<or> normalized = ''no''
               else True)"

definition normalizeInferredAnswer :: "string \<Rightarrow> string \<Rightarrow> string option" where
  "normalizeInferredAnswer v fieldType =
     (if v = [] then None
      else
        let compact = trim (collapseWs v)
        in if compact = [] then None
           else if fieldType = ''number'' then rxfind numberRx compact
           else Some (substring0 220 compact))"

text \<open>\<^verbatim>\<open>s.replace(/^["']|["']$/g, "")\<close>: a quote at the start and a quote at the end go.\<close>

definition isQuote :: "char \<Rightarrow> bool" where
  "isQuote c = (c = CHR 0x22 \<or> c = CHR 0x27)"

definition stripQuotes :: "string \<Rightarrow> string" where
  "stripQuotes s =
     (let s1 = (case s of [] \<Rightarrow> [] | c # cs \<Rightarrow> if isQuote c then cs else s)
      in if s1 \<noteq> [] \<and> isQuote (last s1) then butlast s1 else s1)"

definition nl :: string where
  "nl = [CHR 0x0A]"

definition dq :: string where
  "dq = [CHR 0x22]"

text \<open>The prompt that \<open>inferFieldAnswer\<close> sends: system prompt, blank line, user prompt.\<close>

definition fieldPrompt :: "env \<Rightarrow> job_context \<Rightarrow> string \<Rightarrow> string \<Rightarrow> intent \<Rightarrow> string" where
  "fieldPrompt e jc fieldContext fieldType i =
     (let hints = answerHints e
      in concat
        [''You answer job application form fields for the candidate.'', nl,
         ''Return only the exact value for the field. No explanation, no markdown.'', nl, nl,
         ''Field hint: '', fieldContext, nl,
         ''Field type: '', fieldType, nl,
         ''Field intent: '', intentName i, nl, nl,
         ''Candidate profile:'', nl,
         ''- Name: '', orElse (e ''CANDIDATE_NAME'') ''Candidate'', nl,
         ''- Email: '', orElse (e ''CANDIDATE_EMAIL'') [], nl,
         ''- Phone: '', orElse (e ''CANDIDATE_PHONE'') [], nl,
         ''- Years experience: '', yearsExperience hints, nl,
         ''- Current location: '', orElse (Some (currentLocation hints)) ''Not specified'', nl,
         ''- Needs sponsorship: '', yesNo (sponsorship hints), nl,
         ''- Will relocate: '', yesNo (relocate hints), nl,
         ''- LinkedIn: '', orElse (Some (linkedInUrl hints)) ''N/A'', nl,
         ''- Portfolio: '', orElse (Some (portfolioUrl hints)) ''N/A'', nl, nl,
         ''Job context:'', nl,
         ''- Title: '', orElse (Some (title jc)) ''Unknown'', nl,
         ''- Company: '', orElse (Some (company jc)) ''Unknown'', nl,
         ''- Location: '', orElse (Some (location jc)) ''Unknown'', nl,
         ''- Description snippet: '', substring0 1200 (description jc), nl, nl,
         ''If this is compensation/salary related, provide a realistic expected amount or range for this role/location.'', nl,
         ''If it asks yes/no, return just '', dq, ''Yes'', dq, '' or '', dq, ''No'', dq, ''.'', nl,
         ''If numeric field, return digits only unless range is explicitly requested.''])"

text \<open>
  The key of the per-job answer cache:
  \<^verbatim>\<open>`${fieldType}:${fieldContext}`.substring(0, 300).toLowerCase()\<close>.
\<close>

definition cacheKey :: "string \<Rightarrow> string \<Rightarrow> string" where
  "cacheKey fieldType fieldContext = toLowerCase (substring0 300 (fieldType @ '':'' @ fieldContext))"

text \<open>
  The field types with which \<open>inferFieldAnswer\<close> is called. \<open>autoFillForm\<close> passes
  \<^verbatim>\<open>type || "text"\<close> for an input whose \<^verbatim>\<open>type\<close> attribute is one of \<^verbatim>\<open>text\<close>, \<^verbatim>\<open>number\<close>,
  \<^verbatim>\<open>search\<close>, \<^verbatim>\<open>url\<close>, \<^verbatim>\<open>tel\<close>, \<^verbatim>\<open>email\<close> or missing; \<open>autoFillExternalFormInContext\<close> passes
  the literals \<^verbatim>\<open>number\<close> and \<^verbatim>\<open>text\<close>. There is no other call.
\<close>

definition declaredFieldTypes :: "string list" where
  "declaredFieldTypes = [''text'', ''number'', ''search'', ''url'', ''tel'', ''email'']"

definition shouldPreferHeuristic :: "intent \<Rightarrow> bool" where
  "shouldPreferHeuristic i =
     (i = Location \<or> i = NoticePeriod \<or> i = Experience \<or> i = LinkedIn \<or> i = Portfolio
      \<or> i = Sponsorship \<or> i = Relocate \<or> i = Visa)"

text \<open>
  A call of \<open>inferFieldAnswer\<close> returns the answer (\<open>None\<close> for \<^verbatim>\<open>null\<close>), leaves the cache
  \<^verbatim>\<open>inferredAnswerCache\<close> updated, and has sent the listed prompts to the language model.
\<close>

record infer_result =
  answer :: "string option"
  cache :: "string \<rightharpoonup> string"
  prompts :: "string list"

text \<open>\<^verbatim>\<open>if (v) { this.inferredAnswerCache.set(key, v); } return v;\<close>\<close>

definition cacheAndReturn ::
  "(string \<rightharpoonup> string) \<Rightarrow> string \<Rightarrow> string option \<Rightarrow> string list \<Rightarrow> infer_result" where
  "cacheAndReturn c key v ps =
     (case v of
        None \<Rightarrow> \<lparr> answer = None, cache = c, prompts = ps \<rparr>
      | Some a \<Rightarrow> \<lparr> answer = Some a, cache = (if a = [] then c else c(key \<mapsto> a)), prompts = ps \<rparr>)"

definition inferFieldAnswer ::
  "llm \<Rightarrow> env \<Rightarrow> job_context \<Rightarrow> (string \<rightharpoonup> string) \<Rightarrow> string \<Rightarrow> string \<Rightarrow> infer_result" where
  "inferFieldAnswer m e jc c fieldContext fieldType =
     (let key = cacheKey fieldType fieldContext;
          cached = c key
      in if cached \<noteq> None \<and> cached \<noteq> Some []
         then \<lparr> answer = cached, cache = c, prompts = [] \<rparr>
         else
           let i = detectFieldIntent fieldContext fieldType;
               heuristic = getHeuristicFieldAnswer e jc fieldContext fieldType
           in case m of
                None \<Rightarrow> cacheAndReturn c key heuristic []
              | Some client \<Rightarrow>
                  if shouldPreferHeuristic i \<and> heuristic \<noteq> None \<and> heuristic \<noteq> Some []
                  then cacheAndReturn c key heuristic []
                  else
                    let prompt = fieldPrompt e jc fieldContext fieldType i
                    in case generate client prompt of
                         LlmThrows \<Rightarrow> cacheAndReturn c key heuristic [prompt]
                       | LlmResponse success data \<Rightarrow>
                           let raw = stripQuotes (trim (if success then orElse data [] else []));
                               normalized = normalizeInferredAnswer raw fieldType;
                               cleaned = (if isAnswerCompatibleWithIntent normalized i fieldType
                                          then normalized else heuristic)
                           in cacheAndReturn c key cleaned [prompt])"

section \<open>Pages of an external application site\<close>

text \<open>
  What the scraper reads from a clickable control through the browser: a missing attribute
  and a failed read both end as the empty string in the source (\<^verbatim>\<open>.catch(() => "")\<close> and
  \<^verbatim>\<open>|| ""\<close>), so an attribute is a \<^typ>\<open>string option\<close>. \<open>tagName\<close> is the lower-cased tag, or
  the empty string when it cannot be read.
\<close>

record element =
  visible :: bool
  disabled :: bool
  textContent :: "string option"
  ariaLabel :: "string option"
  valueAttr :: "string option"
  typeAttr :: "string option"
  href :: "string option"
  tagName :: string
  inForm :: bool

text \<open>
  A context is the page itself or one of its attached frames (\<open>getExternalContexts\<close>):
  \<open>controls\<close> are the elements that the selector list of \<open>findExternalActionButton\<close> finds in
  it, in document order, and \<open>confirmationVisible\<close> tells whether one of the confirmation
  texts of \<open>isExternalApplicationSubmitted\<close> is visible in it.
\<close>

record frame_context =
  controls :: "element list"
  confirmationVisible :: bool

text \<open>One observation of the active page.\<close>

record page =
  isClosed :: bool
  url :: string
  pageTitle :: string
  bodyText :: string
  contexts :: "frame_context list"

text \<open>\<open>ActionCandidate\<close>: the control, its combined label and its score.\<close>

record candidate =
  locator :: element
  label :: string
  score :: int

definition normalizeActionSignature :: "string \<Rightarrow> string" where
  "normalizeActionSignature l = substring0 120 (trim (collapseWs (toLowerCase l)))"

definition getLocatorText :: "element \<Rightarrow> string" where
  "getLocatorText el =
     (let text = trim (orElse (textContent el) [])
      in if text \<noteq> [] then substring0 120 (collapseWs text)
         else
           let aria = trim (orElse (ariaLabel el) [])
           in if aria \<noteq> [] then substring0 120 (collapseWs aria)
              else substring0 120 (collapseWs (trim (orElse (valueAttr el) []))))"

definition isInformationalAction :: "string \<Rightarrow> bool" where
  "isInformationalAction combined =
     (includesStr combined ''how to apply'' \<or> includesStr combined ''learn more''
      \<or> includesStr combined ''read more'' \<or> includesStr combined ''view details''
      \<or> includesStr combined ''job details'' \<or> includesStr combined ''about this role'')"

definition isAuthAction :: "string \<Rightarrow> bool" where
  "isAuthAction combined =
     (includesStr combined ''sign in'' \<or> includesStr combined ''log in''
      \<or> includesStr combined ''create account'' \<or> includesStr combined ''register''
      \<or> includesStr combined ''continue with google'' \<or> includesStr combined ''continue with linkedin''
      \<or> includesStr combined ''with linkedin'' \<or> includesStr combined ''with google''
      \<or> includesStr combined ''with apple'' \<or> includesStr combined ''with indeed'')"

definition isNegativeAction :: "string \<Rightarrow> bool" where
  "isNegativeAction combined =
     (includesStr combined ''cancel'' \<or> includesStr combined ''close''
      \<or> includesStr combined ''discard'' \<or> includesStr combined ''back''
      \<or> includesStr combined ''previous'')"

definition isUtilityAction :: "string \<Rightarrow> bool" where
  "isUtilityAction combined =
     (includesStr combined ''toggle flyout'' \<or> includesStr combined ''remove file''
      \<or> includesStr combined ''dropbox'' \<or> includesStr combined ''google drive''
      \<or> includesStr combined ''attach'' \<or> includesStr combined ''upload from''
      \<or> includesStr combined ''enter manually'' \<or> includesStr combined ''share''
      \<or> includesStr combined ''copy link'')"

definition hasPrimaryActionIntent :: "string \<Rightarrow> bool" where
  "hasPrimaryActionIntent combined =
     (includesStr combined ''submit'' \<or> includesStr combined ''apply''
      \<or> includesStr combined ''continue'' \<or> includesStr combined ''next''
      \<or> includesStr combined ''review'' \<or> includesStr combined ''start''
      \<or> includesStr combined ''begin'' \<or> includesStr combined ''proceed''
      \<or> includesStr combined ''finish'' \<or> includesStr combined ''complete'')"

definition hasSecondaryActionIntent :: "string \<Rightarrow> bool" where
  "hasSecondaryActionIntent combined =
     (includesStr combined ''i accept'' \<or> includesStr combined ''accept''
      \<or> includesStr combined ''agree'')"

text \<open>The keyword tier of the score.\<close>

definition keywordScore :: "string \<Rightarrow> int" where
  "keywordScore combined =
     (if includesStr combined ''submit application'' then 120
      else if includesStr combined ''submit'' then 110
      else if includesStr combined ''complete application'' \<or> includesStr combined ''finish application''
      then 100
      else if includesStr combined ''start application'' \<or> includesStr combined ''begin application''
      then 95
      else if includesStr combined ''apply now'' then 90
      else if combined = ''apply'' \<or> startsWith combined ''apply '' then 80
      else if includesStr combined ''send'' then 78
      else if includesStr combined ''continue'' \<or> includesStr combined ''next'' then 70
      else if includesStr combined ''review'' then 65
      else if includesStr combined ''apply'' then 45
      else 0)"

text \<open>The penalty for the target of a link.\<close>

definition hrefPenalty :: "string \<Rightarrow> bool \<Rightarrow> int" where
  "hrefPenalty h inF =
     (if h \<noteq> [] then
        (if includesStr h ''how-to-apply'' \<or> includesStr h ''candidate-how-to-apply''
            \<or> includesStr h ''/help'' \<or> includesStr h ''/faq''
         then 100
         else if startsWith h ''http'' \<and> \<not> includesStr h ''apply'' \<and> \<not> includesStr h ''job'' \<and> \<not> inF
         then 40
         else 0)
      else 0)"

text \<open>
  The combined signal text of a control: its lower-cased text, \<^verbatim>\<open>aria-label\<close> and \<^verbatim>\<open>value\<close>,
  joined by spaces, with white space collapsed and trimmed.
\<close>

definition combinedText :: "element \<Rightarrow> string" where
  "combinedText el =
     (let text = toLowerCase (orElse (textContent el) []);
          aria = toLowerCase (orElse (ariaLabel el) []);
          val = toLowerCase (orElse (valueAttr el) [])
      in trim (collapseWs (text @ '' '' @ aria @ '' '' @ val)))"

text \<open>
  The body of the loop of \<open>findExternalActionButton\<close> over the controls of a context:
  \<open>None\<close> where the source says \<^verbatim>\<open>continue\<close>, the ranked candidate where it pushes one.
\<close>

definition rankCandidate :: "string set \<Rightarrow> element \<Rightarrow> candidate option" where
  "rankCandidate excludeSignatures el =
     (if \<not> visible el then None
      else if disabled el then None
      else
        let candidateType = toLowerCase (orElse (typeAttr el) []);
            h = toLowerCase (orElse (href el) []);
            combined = combinedText el
        in if combined = [] then None
           else if isInformationalAction combined then None
           else if isAuthAction combined then None
           else if isNegativeAction combined then None
           else if isUtilityAction combined then None
           else if normalizeActionSignature combined \<in> excludeSignatures then None
           else
             let looksLikeSubmitControl =
                   (candidateType = ''submit''
                    \<or> (tagName el = ''button'' \<and> length combined \<le> 24 \<and> includesStr combined ''submit''))
             in if \<not> hasPrimaryActionIntent combined \<and> \<not> looksLikeSubmitControl
                   \<and> \<not> hasSecondaryActionIntent combined
                then None
                else
                  let s = (if inForm el then 25 else 0)
                          + (if tagName el = ''button'' \<or> tagName el = ''input'' then 10 else 0)
                          + keywordScore combined
                          + (if candidateType = ''submit'' then 40 else 0)
                          - hrefPenalty h (inForm el)
                  in if s \<le> 0 then None
                     else Some \<lparr> locator = el, label = combined, score = s \<rparr>)"

text \<open>Decimal numerals, as a template literal prints an integer.\<close>

definition digitChar :: "nat \<Rightarrow> char" where
  "digitChar d = char_of (48 + d)"

function showNat :: "nat \<Rightarrow> string" where
  "showNat n = (if n < 10 then [digitChar n] else showNat (n div 10) @ [digitChar (n mod 10)])"
  by pat_completeness auto
termination
  by (relation "measure id") auto

definition showInt :: "int \<Rightarrow> string" where
  "showInt i = (if i < 0 then CHR ''-'' # showNat (nat (- i)) else showNat (nat i))"

text \<open>\<^verbatim>\<open>xs.join(sep)\<close>.\<close>

fun joinWith :: "string \<Rightarrow> string list \<Rightarrow> string" where
  "joinWith sep [] = []"
| "joinWith sep [x] = x"
| "joinWith sep (x # y # ys) = x @ sep @ joinWith sep (y # ys)"

definition actionSystemPrompt :: string where
  "actionSystemPrompt =
     concat
       [''You are selecting the single next button for an external job application flow.'', nl,
        ''Choose the option that most likely progresses or submits the application.'', nl,
        ''Avoid informational/navigation links like '', dq, ''how to apply'', dq, '', '',
        dq, ''learn more'', dq, '', '', dq, ''about'', dq, '', '', dq, ''faq'', dq, '', '',
        dq, ''back'', dq, '', '', dq, ''close'', dq, '', '', dq, ''share'', dq, ''.'', nl,
        ''Return only JSON.'']"

definition actionUserPrompt :: "page \<Rightarrow> candidate list \<Rightarrow> string" where
  "actionUserPrompt p candidates =
     (let pageSnippet = substring0 1400 (collapseWs (bodyText p));
          options = joinWith nl
            (map (\<lambda>(idx, c). showNat idx @ '': '' @ label c @ '' (heuristicScore='' @ showInt (score c) @ '')'')
                 (zip [0 ..< length candidates] candidates))
      in concat
           [''URL: '', url p, nl,
            ''Candidates:'', nl,
            options, nl, nl,
            ''Page text snippet:'', nl,
            pageSnippet, nl, nl,
            ''Return:'', nl,
            ''{'', nl,
            ''  '', dq, ''choice'', dq, '': number,'', nl,
            ''  '', dq, ''intent'', dq, '': '', dq, ''submit|progress|start|none'', dq, '','', nl,
            ''  '', dq, ''reason'', dq, '': string'', nl,
            ''}''])"

definition selectExternalActionWithLLM :: "llm \<Rightarrow> page \<Rightarrow> candidate list \<Rightarrow> candidate option" where
  "selectExternalActionWithLLM m p candidates =
     (case m of
        None \<Rightarrow> None
      | Some client \<Rightarrow>
          if candidates = [] then None
          else
            case generateJSON client actionSystemPrompt (actionUserPrompt p candidates) of
              JsonThrows \<Rightarrow> None
            | JsonResponse success data \<Rightarrow>
                if \<not> success then None
                else
                  case data of
                    None \<Rightarrow> None
                  | Some JsNotInteger \<Rightarrow> None
                  | Some (JsInteger choice) \<Rightarrow>
                      if choice < 0 \<or> choice \<ge> int (length candidates) then None
                      else Some (candidates ! nat choice))"

text \<open>
  \<^verbatim>\<open>rankedCandidates.sort((a, b) => b.score - a.score)\<close>: a stable sort by falling score.
\<close>

definition sortByScore :: "candidate list \<Rightarrow> candidate list" where
  "sortByScore cs = sort_key (\<lambda>c. - score c) cs"

definition findExternalActionButton :: "llm \<Rightarrow> page \<Rightarrow> string set \<Rightarrow> candidate option" where
  "findExternalActionButton m targetPage excludeSignatures =
     (let rankedCandidates =
            concat (map (\<lambda>ctx. List.map_filter (rankCandidate excludeSignatures) (controls ctx))
                        (contexts targetPage))
      in case sortByScore rankedCandidates of
           [] \<Rightarrow> None
         | topCandidate # rest \<Rightarrow>
             (case selectExternalActionWithLLM m targetPage (take 8 (topCandidate # rest)) of
                Some llmChoice \<Rightarrow> Some llmChoice
              | None \<Rightarrow> Some topCandidate))"

section \<open>External application flow\<close>

text \<open>The three tests of \<open>isExternalLoginRequired\<close>, on the lower-cased URL and body text.\<close>

definition urlHasLoginToken :: "page \<Rightarrow> bool" where
  "urlHasLoginToken targetPage =
     (let u = toLowerCase (url targetPage)
      in includesStr u ''login'' \<or> includesStr u ''sign-in'' \<or> includesStr u ''signin''
         \<or> includesStr u ''auth'')"

definition hasLoginCue :: "page \<Rightarrow> bool" where
  "hasLoginCue targetPage =
     (let text = toLowerCase (bodyText targetPage)
      in includesStr text ''sign in'' \<or> includesStr text ''log in''
         \<or> includesStr text ''create account'' \<or> includesStr text ''forgot password'')"

definition hasCredentialCue :: "page \<Rightarrow> bool" where
  "hasCredentialCue targetPage =
     (let text = toLowerCase (bodyText targetPage)
      in includesStr text ''password'' \<or> includesStr text ''continue with google''
         \<or> includesStr text ''continue with linkedin'')"

definition isExternalLoginRequired :: "page \<Rightarrow> bool" where
  "isExternalLoginRequired targetPage =
     (if urlHasLoginToken targetPage then True
      else hasLoginCue targetPage \<and> hasCredentialCue targetPage)"

definition isExternalVerificationGate :: "page \<Rightarrow> bool" where
  "isExternalVerificationGate targetPage =
     (let text = toLowerCase (bodyText targetPage)
      in includesStr text ''captcha'' \<or> includesStr text ''verify you are human''
         \<or> includesStr text ''security check'' \<or> includesStr text ''cloudflare''
         \<or> includesStr text ''unusual traffic'')"

definition isExternalApplicationSubmitted :: "page \<Rightarrow> bool" where
  "isExternalApplicationSubmitted targetPage =
     (if list_ex confirmationVisible (contexts targetPage) then True
      else
        let u = toLowerCase (url targetPage)
        in includesStr u ''thank-you'' \<or> includesStr u ''application-confirmation''
           \<or> includesStr u ''/submitted/'' \<or> includesStr u ''application-submitted''
           \<or> includesStr u ''submission-complete'')"

text \<open>\<^verbatim>\<open>s.split(sep)[0]\<close> for a separator of one character.\<close>

definition beforeChar :: "char \<Rightarrow> string \<Rightarrow> string" where
  "beforeChar sep s = takeWhile (\<lambda>c. c \<noteq> sep) s"

definition getPageFingerprint :: "page \<Rightarrow> string" where
  "getPageFingerprint targetPage =
     (if isClosed targetPage then ''closed''
      else
        let u = beforeChar CHR ''?'' (beforeChar CHR ''#'' (url targetPage));
            snippet = substring0 260 (toLowerCase (collapseWs (bodyText targetPage)))
        in u @ ''|'' @ pageTitle targetPage @ ''|'' @ snippet)"

text \<open>
  The browser is outside the program. What \<open>completeExternalApplication\<close> observes in the
  iteration \<open>step\<close> of its loop is given as a \<open>step_observation\<close>:
  \<^item> \<open>atEntry\<close>: the active page after \<open>adoptNewestExternalPage\<close> at the top of the iteration,
    read by \<^verbatim>\<open>isClosed\<close>, \<open>isExternalLoginRequired\<close> and \<open>isExternalVerificationGate\<close>;
  \<^item> \<open>afterFill\<close>: the page after \<open>autoFillExternalForm\<close>, read by the submission check, the
    fingerprint and the search for the next action;
  \<^item> \<open>afterWait\<close>: the page after the wait that follows a search without a result;
  \<^item> \<open>clickOk\<close>: the result of \<open>clickExternalAction\<close>;
  \<^item> \<open>afterClick\<close>: the page after the click, the wait and the second \<open>adoptNewestExternalPage\<close>.

  \<open>atExit\<close> is the page that the submission check after the loop reads. Any behaviour of
  the browser is some choice of these observations.
\<close>

record step_observation =
  atEntry :: page
  afterFill :: page
  afterWait :: page
  clickOk :: bool
  afterClick :: page

record browser =
  observe :: "nat \<Rightarrow> step_observation"
  atExit :: page

datatype outcome = Submitted | Failed | Skipped

text \<open>The local variables of \<open>completeExternalApplication\<close> that live across iterations.\<close>

record flow_state =
  clickedAtLeastOneAction :: bool
  noProgressStreak :: nat
  attemptedActionsByFingerprint :: "string \<rightharpoonup> string set"

text \<open>
  For the statements about a run, the result records besides the returned outcome the
  \<^verbatim>\<open>return\<close> statement that produced it and, for every iteration that was started, how far
  it went. \<open>autoFillExternalForm\<close> is called in an iteration exactly when the iteration
  gets past the login and verification checks.
\<close>

datatype exit_site =
    ExitPageClosed
  | ExitLoginRequired
  | ExitVerificationGate
  | ExitSubmitted
  | ExitSubmittedAfterWait
  | ExitNoProgress
  | ExitSubmittedAfterLoop
  | ExitAfterLoop

datatype iteration =
    StoppedAtClosedPage
  | StoppedAtLogin
  | StoppedAtVerification
  | FilledThenSubmitted
  | FilledNoAction
  | FilledClickFailed
  | ClickedWithProgress
  | ClickedNoProgress

fun callsAutoFill :: "iteration \<Rightarrow> bool" where
  "callsAutoFill StoppedAtClosedPage = False"
| "callsAutoFill StoppedAtLogin = False"
| "callsAutoFill StoppedAtVerification = False"
| "callsAutoFill it = True"

fun isClick :: "iteration \<Rightarrow> bool" where
  "isClick ClickedWithProgress = True"
| "isClick ClickedNoProgress = True"
| "isClick it = False"

text \<open>
  The value that \<^verbatim>\<open>noProgressStreak\<close> has after the listed iterations when it was \<open>k\<close> before
  them: a click without progress adds one, a click with progress resets it.
\<close>

fun streakAfter :: "nat \<Rightarrow> iteration list \<Rightarrow> nat" where
  "streakAfter k [] = k"
| "streakAfter k (ClickedNoProgress # its) = streakAfter (k + 1) its"
| "streakAfter k (ClickedWithProgress # its) = streakAfter 0 its"
| "streakAfter k (it # its) = streakAfter k its"

record flow_result =
  returned :: outcome
  exitSite :: exit_site
  iterations :: "iteration list"

definition failedOrSkipped :: "flow_state \<Rightarrow> outcome" where
  "failedOrSkipped st = (if clickedAtLeastOneAction st then Failed else Skipped)"

text \<open>The code after the loop, reached by \<^verbatim>\<open>break\<close> or when 14 iterations are done.\<close>

definition afterLoop :: "browser \<Rightarrow> flow_state \<Rightarrow> iteration list \<Rightarrow> flow_result" where
  "afterLoop b st its =
     (if isExternalApplicationSubmitted (atExit b)
      then \<lparr> returned = Submitted, exitSite = ExitSubmittedAfterLoop, iterations = its \<rparr>
      else \<lparr> returned = failedOrSkipped st, exitSite = ExitAfterLoop, iterations = its \<rparr>)"

text \<open>The update of the state after a click that succeeded (lines 943 to 957 of the source).\<close>

definition recordClick :: "flow_state \<Rightarrow> string \<Rightarrow> string \<Rightarrow> string \<Rightarrow> flow_state" where
  "recordClick st beforeFingerprint afterFingerprint buttonLabel =
     (let st1 = st\<lparr> clickedAtLeastOneAction := True \<rparr>
      in if afterFingerprint = beforeFingerprint
         then
           let attempted = (case attemptedActionsByFingerprint st1 beforeFingerprint of
                              None \<Rightarrow> {} | Some sigs \<Rightarrow> sigs)
           in st1\<lparr> attemptedActionsByFingerprint :=
                      (attemptedActionsByFingerprint st1)
                        (beforeFingerprint \<mapsto> insert (normalizeActionSignature buttonLabel) attempted),
                    noProgressStreak := noProgressStreak st1 + 1 \<rparr>
         else st1\<lparr> noProgressStreak := 0 \<rparr>)"

definition withIteration :: "iteration \<Rightarrow> flow_result \<Rightarrow> flow_result" where
  "withIteration it r = r\<lparr> iterations := it # iterations r \<rparr>"

function externalLoop :: "llm \<Rightarrow> browser \<Rightarrow> flow_state \<Rightarrow> nat \<Rightarrow> flow_result" where
  "externalLoop m b st step =
     (if step < 14 then
        let ob = observe b step
        in if isClosed (atEntry ob)
           then \<lparr> returned = Submitted, exitSite = ExitPageClosed, iterations = [StoppedAtClosedPage] \<rparr>
           else if isExternalLoginRequired (atEntry ob)
           then \<lparr> returned = Skipped, exitSite = ExitLoginRequired, iterations = [StoppedAtLogin] \<rparr>
           else if isExternalVerificationGate (atEntry ob)
           then \<lparr> returned = Skipped, exitSite = ExitVerificationGate,
                  iterations = [StoppedAtVerification] \<rparr>
           else if isExternalApplicationSubmitted (afterFill ob)
           then \<lparr> returned = Submitted, exitSite = ExitSubmitted, iterations = [FilledThenSubmitted] \<rparr>
           else
             let beforeFingerprint = getPageFingerprint (afterFill ob);
                 excludeSignatures = (case attemptedActionsByFingerprint st beforeFingerprint of
                                        None \<Rightarrow> {} | Some sigs \<Rightarrow> sigs)
             in case findExternalActionButton m (afterFill ob) excludeSignatures of
                  None \<Rightarrow>
                    if isExternalApplicationSubmitted (afterWait ob)
                    then \<lparr> returned = Submitted, exitSite = ExitSubmittedAfterWait,
                           iterations = [FilledNoAction] \<rparr>
                    else afterLoop b st [FilledNoAction]
                | Some actionCandidate \<Rightarrow>
                    let buttonLabel = (if label actionCandidate \<noteq> [] then label actionCandidate
                                       else getLocatorText (locator actionCandidate))
                    in if \<not> clickOk ob then afterLoop b st [FilledClickFailed]
                       else
                         let afterFingerprint = getPageFingerprint (afterClick ob);
                             st' = recordClick st beforeFingerprint afterFingerprint buttonLabel;
                             it = (if afterFingerprint = beforeFingerprint
                                   then ClickedNoProgress else ClickedWithProgress)
                         in if noProgressStreak st' \<ge> 3
                            then \<lparr> returned = failedOrSkipped st', exitSite = ExitNoProgress,
                                   iterations = [it] \<rparr>
                            else withIteration it (externalLoop m b st' (step + 1))
      else afterLoop b st [])"
  by pat_completeness auto
termination
  by (relation "measure (\<lambda>(m, b, st, step). 14 - step)") auto

definition initialFlowState :: flow_state where
  "initialFlowState =
     \<lparr> clickedAtLeastOneAction = False, noProgressStreak = 0,
       attemptedActionsByFingerprint = Map.empty \<rparr>"

definition completeExternalApplication :: "llm \<Rightarrow> browser \<Rightarrow> flow_result" where
  "completeExternalApplication m b = externalLoop m b initialFlowState 0"

section \<open>Job card iteration\<close>

text \<open>\<open>getJobKey\<close>: the key of the job whose context was captured last.\<close>

definition getJobKey :: "job_context \<Rightarrow> string" where
  "getJobKey jc =
     substring0 240
       (trim (collapseWs (toLowerCase (joinWith ''|'' [title jc, company jc, location jc]))))"

datatype easy_outcome = Applied | EasyFailed | ManualHelp

text \<open>
  What \<open>applyEasyApplyJobs\<close> meets in the iteration for one card. The browser and the two
  flow drivers are outside this part of the model, so their results are observations:
  \<^item> \<open>pageAvailable\<close>: \<^verbatim>\<open>this.page\<close> is set after \<open>ensureActiveLinkedInPage\<close>;
  \<^item> \<open>activeCount\<close>: the number of cards in the list as it is now (0 when it cannot be read);
  \<^item> \<open>openFails\<close>: scrolling to the card or clicking it throws;
  \<^item> \<open>cardText\<close>, \<open>titleText\<close>, \<open>companyText\<close>, \<open>locationText\<close>, \<open>descriptionText\<close>: the texts
    read from the card and from the opened job (\<open>None\<close> when a read gives \<^verbatim>\<open>null\<close> or fails);
  \<^item> \<open>easyApplyFound\<close>, \<open>externalFallbackFound\<close>, \<open>externalFound\<close>: the results of the calls of
    \<open>findApplyActionButton\<close>; \<open>modalOpened\<close>: the result of \<open>clickEasyApplyAndWaitForModal\<close>;
  \<^item> \<open>easyResult\<close>, \<open>externalStatus\<close>: the results of \<open>completeEasyApplyFlow\<close> and of
    \<open>handleExternalApplication\<close>;
  \<^item> \<open>applyThrows\<close>: one of these calls throws, before a counter is changed;
  \<^item> \<open>dismissThrows\<close>: \<open>dismissEasyApplyModal\<close> throws after the Easy Apply result was counted;
  \<^item> \<open>dismissInCatchThrows\<close>: \<open>dismissEasyApplyModal\<close> throws in the \<^verbatim>\<open>catch\<close> block, which
    ends \<open>applyEasyApplyJobs\<close> with that exception.
\<close>

record card_observation =
  pageAvailable :: bool
  activeCount :: nat
  openFails :: bool
  cardText :: "string option"
  titleText :: "string option"
  companyText :: "string option"
  locationText :: "string option"
  descriptionText :: "string option"
  easyApplyFound :: bool
  modalOpened :: bool
  externalFallbackFound :: bool
  externalFound :: bool
  easyResult :: easy_outcome
  externalStatus :: outcome
  applyThrows :: bool
  dismissThrows :: bool
  dismissInCatchThrows :: bool

text \<open>
  The counters and the fields of the class that the loop reads and writes. \<open>applyAttempts\<close>
  is not in the source: it lists, in order, the job keys for which the loop went on to look
  for an apply button, so that statements about apply attempts can be made.
  \<^verbatim>\<open>inferredAnswerCache\<close> is cleared at every card and used inside the flow drivers only.
\<close>

record session =
  applied :: nat
  failed :: nat
  manualHelp :: nat
  processedJobKeys :: "string set"
  currentJobContext :: job_context
  applyAttempts :: "string list"

definition jobLabel :: "card_observation \<Rightarrow> nat \<Rightarrow> string" where
  "jobLabel ob i =
     (let t = trim (orElse (cardText ob) [])
      in if t \<noteq> [] then t else ''Job '' @ showNat (i + 1))"

definition captureCurrentJobContext :: "card_observation \<Rightarrow> string \<Rightarrow> job_context" where
  "captureCurrentJobContext ob jobLabelFallback =
     \<lparr> title = (let t = trim (orElse (titleText ob) []) in if t \<noteq> [] then t else jobLabelFallback),
       company = trim (orElse (companyText ob) []),
       location = trim (orElse (locationText ob) []),
       description = substring0 3000 (trim (collapseWs (orElse (descriptionText ob) []))) \<rparr>"

datatype card_result = Continue session | Break session | Throw session

text \<open>The session with which an iteration ends.\<close>

fun cardSession :: "card_result \<Rightarrow> session" where
  "cardSession (Continue s) = s"
| "cardSession (Break s) = s"
| "cardSession (Throw s) = s"

text \<open>The \<^verbatim>\<open>catch\<close> block of the loop body.\<close>

definition catchBlock :: "card_observation \<Rightarrow> session \<Rightarrow> card_result" where
  "catchBlock ob s =
     (let s' = s\<lparr> failed := failed s + 1 \<rparr>
      in if pageAvailable ob \<and> dismissInCatchThrows ob then Throw s' else Continue s')"

definition countExternal :: "outcome \<Rightarrow> session \<Rightarrow> session" where
  "countExternal status s =
     (if status = Submitted then s\<lparr> applied := applied s + 1 \<rparr>
      else if status = Skipped then s
      else s\<lparr> failed := failed s + 1 \<rparr>)"

definition countEasy :: "easy_outcome \<Rightarrow> session \<Rightarrow> session" where
  "countEasy r s =
     (if r = Applied then s\<lparr> applied := applied s + 1 \<rparr>
      else if r = ManualHelp then s\<lparr> manualHelp := manualHelp s + 1 \<rparr>
      else s\<lparr> failed := failed s + 1 \<rparr>)"

text \<open>The body of the loop of \<open>applyEasyApplyJobs\<close> for the card with index \<open>i\<close>.\<close>

definition processCard :: "card_observation \<Rightarrow> nat \<Rightarrow> session \<Rightarrow> card_result" where
  "processCard ob i s =
     (if \<not> pageAvailable ob then catchBlock ob s
      else if i \<ge> activeCount ob then Break s
      else if openFails ob then catchBlock ob s
      else
        let s1 = s\<lparr> currentJobContext := captureCurrentJobContext ob (jobLabel ob i) \<rparr>;
            jobKey = getJobKey (currentJobContext s1)
        in if jobKey \<in> processedJobKeys s1 then Continue s1
           else
             let s2 = s1\<lparr> processedJobKeys := insert jobKey (processedJobKeys s1),
                          applyAttempts := applyAttempts s1 @ [jobKey] \<rparr>
             in if applyThrows ob then catchBlock ob s2
                else if easyApplyFound ob then
                  (if \<not> modalOpened ob then
                     (if \<not> externalFallbackFound ob then Continue s2
                      else Continue (countExternal (externalStatus ob) s2))
                   else
                     let s3 = countEasy (easyResult ob) s2
                     in if dismissThrows ob then catchBlock ob s3 else Continue s3)
                else if externalFound ob then Continue (countExternal (externalStatus ob) s2)
                else Continue s2)"

datatype run_result = Returned session | Thrown session

function applyLoop :: "(nat \<Rightarrow> card_observation) \<Rightarrow> int \<Rightarrow> int \<Rightarrow> session \<Rightarrow> nat \<Rightarrow> run_result" where
  "applyLoop cards maxApplications attempts s i =
     (if int i < attempts \<and> int (applied s) < maxApplications then
        (case processCard (cards i) i s of
           Continue s' \<Rightarrow> applyLoop cards maxApplications attempts s' (i + 1)
         | Break s' \<Rightarrow> Returned s'
         | Throw s' \<Rightarrow> Thrown s')
      else Returned s)"
  by pat_completeness auto
termination
  by (relation "measure (\<lambda>(cards, maxApplications, attempts, s, i). nat (attempts - int i))") auto

text \<open>
  A run of \<open>applyEasyApplyJobs\<close>: \<open>pagePresent\<close> is \<^verbatim>\<open>this.page\<close> at the call, \<open>cardCount\<close> the
  number of cards counted before the loop (\<open>None\<close> when counting throws), \<open>cards\<close> what each
  iteration meets.
\<close>

record run_observation =
  pagePresent :: bool
  cardCount :: "nat option"
  cards :: "nat \<Rightarrow> card_observation"

definition applyEasyApplyJobs :: "run_observation \<Rightarrow> job_context \<Rightarrow> int \<Rightarrow> run_result" where
  "applyEasyApplyJobs run jc maxApplications =
     (let s0 = \<lparr> applied = 0, failed = 0, manualHelp = 0, processedJobKeys = {},
                 currentJobContext = jc, applyAttempts = [] \<rparr>
      in if \<not> pagePresent run then Thrown s0
         else
           case cardCount run of
             None \<Rightarrow> Thrown s0
           | Some n \<Rightarrow>
               let attempts = min (int n) (max (maxApplications * 4) maxApplications)
               in applyLoop (cards run) maxApplications attempts s0 0)"

text \<open>The session with which a run ended, by \<^verbatim>\<open>return\<close> or by an exception.\<close>

fun finalSession :: "run_result \<Rightarrow> session" where
  "finalSession (Returned s) = s"
| "finalSession (Thrown s) = s"

section \<open>Boolean questions of a form\<close>

text \<open>The result of an awaited browser call that the source does not guard by \<^verbatim>\<open>catch\<close>.\<close>

datatype 'a attempt = Throws | Returns 'a

text \<open>
  A radio input as \<open>answerRequiredBooleanQuestions\<close> sees it:
  \<^item> \<open>idAttr\<close>: the result of \<^verbatim>\<open>getAttribute("id")\<close>;
  \<^item> \<open>forLabelText\<close>: the text of the first \<^verbatim>\<open>label[for=id]\<close> of the root, \<open>None\<close> when the read
    gives \<^verbatim>\<open>null\<close> or fails;
  \<^item> \<open>wrapLabelText\<close>: the inner text of the closest enclosing label (empty when there is
    none), \<open>None\<close> when the read fails;
  \<^item> \<open>radioName\<close>: the \<^verbatim>\<open>name\<close> attribute, empty when the radio has none;
  \<^item> \<open>formOwner\<close>: the form that the radio belongs to, \<open>None\<close> when it belongs to no form;
  \<^item> \<open>checked\<close>: whether the radio is selected;
  \<^item> \<open>responds\<close>: whether \<^verbatim>\<open>check()\<close>, or the forced click that the source falls back to, gets
    the radio selected. Both failures are swallowed by the source.
\<close>

record radio =
  idAttr :: "string option attempt"
  forLabelText :: "string option"
  wrapLabelText :: "string option"
  radioName :: string
  formOwner :: "nat option"
  checked :: bool
  responds :: bool

text \<open>
  A group (\<^verbatim>\<open>fieldset\<close> or \<^verbatim>\<open>role=group\<close>): its text, whether counting its radios throws, and
  its radios in document order, as indices into the radios of the root. An index beyond
  the list stands for an element that is gone: reading it throws, checking it has no
  effect.
\<close>

record radio_group =
  groupText :: "string option attempt"
  countFails :: bool
  members :: "nat list"

record form_root =
  rootClosed :: bool
  rootDetached :: bool
  groupsFail :: bool
  groups :: "radio_group list"
  radios :: "radio list"

definition getPreferredAnswer :: "env \<Rightarrow> string \<Rightarrow> string" where
  "getPreferredAnswer e questionText =
     (let q = toLowerCase questionText; hints = answerHints e
      in if includesStr q ''sponsor'' \<or> includesStr q ''sponsorship''
         then (if sponsorship hints then ''yes'' else ''no'')
         else if includesStr q ''relocat''
         then (if relocate hints then ''yes'' else ''no'')
         else if includesStr q ''visa'' \<or> includesStr q ''work authorization''
                 \<or> includesStr q ''work permit''
         then (if toLowerCase (visa hints) = ''yes'' then ''yes'' else ''no'')
         else ''yes'')"

text \<open>The label text of a radio whose \<^verbatim>\<open>id\<close> was read as \<open>idv\<close>.\<close>

definition radioLabelText :: "radio \<Rightarrow> string option \<Rightarrow> string" where
  "radioLabelText r idv =
     (let byFor = (if orElse idv [] \<noteq> [] then toLowerCase (orElse (forLabelText r) []) else [])
      in if byFor = [] then toLowerCase (orElse (wrapLabelText r) []) else byFor)"

text \<open>
  The inner loop over the radios of a group: the first radio whose label text contains the
  preferred answer; the group is abandoned when an \<^verbatim>\<open>id\<close> cannot be read (the exception is
  caught around the whole group).
\<close>

datatype radio_choice = Abandoned | Matched nat | NoMatch

fun findPreferredRadio :: "string \<Rightarrow> radio list \<Rightarrow> nat list \<Rightarrow> radio_choice" where
  "findPreferredRadio preferred rs [] = NoMatch"
| "findPreferredRadio preferred rs (i # rest) =
     (if i \<ge> length rs then Abandoned
      else
        case idAttr (rs ! i) of
          Throws \<Rightarrow> Abandoned
        | Returns idv \<Rightarrow>
            if includesStr (radioLabelText (rs ! i) idv) preferred then Matched i
            else findPreferredRadio preferred rs rest)"

text \<open>
  The radio button group of the browser: two radios exclude each other when they have the
  same name, which is not empty, and the same form owner. A radio without a name is in no
  group.
\<close>

definition sameRadioGroup :: "radio \<Rightarrow> radio \<Rightarrow> bool" where
  "sameRadioGroup r r' \<longleftrightarrow>
     radioName r \<noteq> [] \<and> radioName r = radioName r' \<and> formOwner r = formOwner r'"

text \<open>
  The browser selects a radio: it becomes checked and every other radio of its radio
  button group becomes unchecked.
\<close>

definition selectRadio :: "nat \<Rightarrow> radio list \<Rightarrow> radio list" where
  "selectRadio i rs =
     map (\<lambda>(j, r). if j = i then r\<lparr> checked := True \<rparr>
                    else if sameRadioGroup r (rs ! i) then r\<lparr> checked := False \<rparr>
                    else r)
         (zip [0 ..< length rs] rs)"

text \<open>
  \<^verbatim>\<open>radio.check().catch(async () => { await radio.click({ force: true }).catch(() => {}); })\<close>:
  nothing changes for a radio that is checked already, or that does not respond.
\<close>

definition checkRadio :: "nat \<Rightarrow> radio list \<Rightarrow> radio list" where
  "checkRadio i rs =
     (if i \<ge> length rs then rs
      else if checked (rs ! i) then rs
      else if responds (rs ! i) then selectRadio i rs
      else rs)"

text \<open>The body of the loop over the groups, with its \<^verbatim>\<open>try\<close> and \<^verbatim>\<open>catch\<close>.\<close>

definition answerGroup :: "env \<Rightarrow> radio list \<Rightarrow> radio_group \<Rightarrow> radio list" where
  "answerGroup e rs g =
     (case groupText g of
        Throws \<Rightarrow> rs
      | Returns t \<Rightarrow>
          let text = toLowerCase (orElse t [])
          in if countFails g then rs
             else if members g = [] then rs
             else
               let preferred = getPreferredAnswer e text
               in case findPreferredRadio preferred rs (members g) of
                    Abandoned \<Rightarrow> rs
                  | Matched i \<Rightarrow> checkRadio i rs
                  | NoMatch \<Rightarrow> checkRadio (hd (members g)) rs)"

text \<open>The radios of the root after \<open>answerRequiredBooleanQuestions\<close> has run on it.\<close>

definition answerRequiredBooleanQuestions :: "env \<Rightarrow> form_root \<Rightarrow> radio list" where
  "answerRequiredBooleanQuestions e root =
     (if rootClosed root then radios root
      else if rootDetached root then radios root
      else foldl (answerGroup e) (radios root) (if groupsFail root then [] else groups root))"

text \<open>The radios of a group that are selected.\<close>

definition selectedIn :: "radio_group \<Rightarrow> radio list \<Rightarrow> nat list" where
  "selectedIn g rs = filter (\<lambda>i. i < length rs \<and> checked (rs ! i)) (members g)"

text \<open>
  The radio that a group with at least one radio should end up with, stated without the
  loop of the source: the first radio of the group whose label contains the preferred
  answer to the text of the group, and the first radio when no label does. The label of a
  radio is the text of the label that points to its \<^verbatim>\<open>id\<close>, or else of the label around it.
\<close>

definition radioLabel :: "radio \<Rightarrow> string" where
  "radioLabel r = (case idAttr r of Throws \<Rightarrow> [] | Returns idv \<Rightarrow> radioLabelText r idv)"

definition preferredFor :: "env \<Rightarrow> radio_group \<Rightarrow> string" where
  "preferredFor e g =
     getPreferredAnswer e
       (toLowerCase (case groupText g of Throws \<Rightarrow> [] | Returns t \<Rightarrow> orElse t []))"

definition expectedRadio :: "env \<Rightarrow> radio list \<Rightarrow> radio_group \<Rightarrow> nat" where
  "expectedRadio e rs g =
     (case List.find (\<lambda>i. includesStr (radioLabel (rs ! i)) (preferredFor e g)) (members g) of
        Some i \<Rightarrow> i
      | None \<Rightarrow> hd (members g))"

text \<open>
  A form on which nothing fails: the root is open and attached, its groups, their texts
  and the \<^verbatim>\<open>id\<close>s of their radios can be read, every radio of a group exists and
  responds, a group lists a radio once, at most one radio of a group is selected, and the
  radios of a group are one radio button group of the browser (they have one name, which
  is not empty, and one form owner), different from that of every other group.
\<close>

definition groupReadable :: "radio list \<Rightarrow> radio_group \<Rightarrow> bool" where
  "groupReadable rs g \<longleftrightarrow>
     groupText g \<noteq> Throws \<and> \<not> countFails g \<and> distinct (members g)
     \<and> (\<forall>i \<in> set (members g). i < length rs \<and> idAttr (rs ! i) \<noteq> Throws \<and> responds (rs ! i))
     \<and> (\<forall>i \<in> set (members g). \<forall>j \<in> set (members g). checked (rs ! i) \<and> checked (rs ! j) \<longrightarrow> i = j)"

definition namesSeparateGroups :: "radio list \<Rightarrow> radio_group list \<Rightarrow> bool" where
  "namesSeparateGroups rs gs \<longleftrightarrow>
     (\<forall>a \<in> set [0 ..< length gs]. \<forall>b \<in> set [0 ..< length gs].
        \<forall>i \<in> set (members (gs ! a)). \<forall>j \<in> set (members (gs ! b)).
          sameRadioGroup (rs ! i) (rs ! j) = (a = b))"

definition wellFormedForm :: "form_root \<Rightarrow> bool" where
  "wellFormedForm root \<longleftrightarrow>
     \<not> rootClosed root \<and> \<not> rootDetached root \<and> \<not> groupsFail root
     \<and> (\<forall>g \<in> set (groups root). groupReadable (radios root) g)
     \<and> namesSeparateGroups (radios root) (groups root)"

text \<open>Two states of the radios that differ in what is selected only.\<close>

definition sameStatics :: "radio list \<Rightarrow> radio list \<Rightarrow> bool" where
  "sameStatics rs rs' \<longleftrightarrow>
     length rs' = length rs
     \<and> (\<forall>i < length rs.
           idAttr (rs' ! i) = idAttr (rs ! i) \<and> forLabelText (rs' ! i) = forLabelText (rs ! i)
           \<and> wrapLabelText (rs' ! i) = wrapLabelText (rs ! i)
           \<and> radioName (rs' ! i) = radioName (rs ! i) \<and> formOwner (rs' ! i) = formOwner (rs ! i)
           \<and> responds (rs' ! i) = responds (rs ! i))"

section \<open>Concrete scenarios\<close>

text \<open>
  Inputs at which the model is evaluated: the environment with no variable set (every hint
  takes its default), a job in Sydney, an empty answer cache, and a language model that
  always replies with the same text.
\<close>

definition exEnv :: env where
  "exEnv = Map.empty"

definition exJob :: job_context where
  "exJob = \<lparr> title = ''Backend Engineer'', company = ''Acme'', location = ''Sydney, Australia'',
             description = ''Build and run services.'' \<rparr>"

text \<open>
  Jobs for the salary fallback: one that names a pay range, one in India, and one that
  names neither a range nor a country.
\<close>

definition rangeJob :: job_context where
  "rangeJob = \<lparr> title = ''Backend Engineer'', company = ''Acme'', location = ''Remote'',
               description = ''Pay: USD 50-60 per hour'' \<rparr>"

definition indiaJob :: job_context where
  "indiaJob = \<lparr> title = ''Backend Engineer'', company = ''Acme'', location = ''Bengaluru'',
               description = ''Build and run services.'' \<rparr>"

definition plainJob :: job_context where
  "plainJob = \<lparr> title = ''Backend Engineer'', company = ''Acme'', location = ''Remote'',
               description = ''Build and run services.'' \<rparr>"

definition emptyCache :: "string \<rightharpoonup> string" where
  "emptyCache = Map.empty"

definition constantReply :: "string \<Rightarrow> string \<Rightarrow> llm_response" where
  "constantReply r prompt = LlmResponse True (Some r)"

definition noChoice :: "string \<Rightarrow> string \<Rightarrow> json_response" where
  "noChoice systemPrompt userPrompt = JsonResponse False None"

definition exLlm :: "string \<Rightarrow> llm_client" where
  "exLlm r = \<lparr> generate = constantReply r, generateJSON = noChoice \<rparr>"

text \<open>
  A field context longer than the 300 characters the cache key keeps: 295 characters that
  name no intent, then an ending. It is lower-case and single-spaced, as the callers of
  \<open>inferFieldAnswer\<close> make every context, and holds none of the words on which they branch
  before they call it.
\<close>

definition paddedContext :: "string \<Rightarrow> string" where
  "paddedContext ending = replicate 295 CHR ''x'' @ ending"

text \<open>
  A page of an external site with one context: a form of buttons. On \<open>stuckPage\<close> nothing
  ever changes, whatever is clicked.
\<close>

definition exButton :: "string \<Rightarrow> element" where
  "exButton t =
     \<lparr> visible = True, disabled = False, textContent = Some t, ariaLabel = None,
       valueAttr = None, typeAttr = None, href = None, tagName = ''button'', inForm = True \<rparr>"

definition exPage :: "string \<Rightarrow> string \<Rightarrow> element list \<Rightarrow> page" where
  "exPage u body els =
     \<lparr> isClosed = False, url = u, pageTitle = ''Careers'', bodyText = body,
       contexts = [\<lparr> controls = els, confirmationVisible = False \<rparr>] \<rparr>"

definition always :: "page \<Rightarrow> nat \<Rightarrow> step_observation" where
  "always p step = \<lparr> atEntry = p, afterFill = p, afterWait = p, clickOk = True, afterClick = p \<rparr>"

definition stuckPage :: page where
  "stuckPage =
     exPage ''https://jobs.example.com/apply?id=7'' ''Tell us about you''
       [exButton ''Cancel'', exButton ''Next'', exButton ''Submit Application'', exButton ''Continue'']"

definition stuckBrowser :: browser where
  "stuckBrowser = \<lparr> observe = always stuckPage, atExit = stuckPage \<rparr>"

text \<open>
  Three pages for the login check: the URL has a login token and the body no cue; the body
  has both cues and the URL no token; both.
\<close>

definition loginUrlPage :: page where
  "loginUrlPage = exPage ''https://careers.example.com/login'' ''Welcome to our careers site'' []"

definition loginBodyPage :: page where
  "loginBodyPage =
     exPage ''https://careers.example.com/apply'' ''Sign in to continue. Enter your password.'' []"

definition loginWallPage :: page where
  "loginWallPage =
     exPage ''https://careers.example.com/login'' ''Sign in. Forgot password?''
       [exButton ''Sign in'', exButton ''Continue'']"

definition loginWallBrowser :: browser where
  "loginWallBrowser = \<lparr> observe = always loginWallPage, atExit = loginWallPage \<rparr>"

text \<open>
  A page on which the controls with the highest keyword scores carry an informational, an
  authentication or a negative keyword.
\<close>

definition mixedPage :: page where
  "mixedPage =
     exPage ''https://jobs.example.com/apply'' ''Apply for this job''
       [exButton ''How to apply'', exButton ''Sign in to apply now'',
        exButton ''Discard and submit application'', exButton ''Cancel and continue'',
        exButton ''Next'']"

text \<open>
  Three cards: a job with an Easy Apply button whose flow submits, the same job shown a
  second time, and another job with an external apply button whose flow is skipped.
\<close>

definition exCard :: "string \<Rightarrow> bool \<Rightarrow> card_observation" where
  "exCard t easy =
     \<lparr> pageAvailable = True, activeCount = 3, openFails = False,
       cardText = Some t, titleText = Some t, companyText = Some ''Acme'',
       locationText = Some ''Sydney, Australia'', descriptionText = Some ''Build and run services.'',
       easyApplyFound = easy, modalOpened = True, externalFallbackFound = False,
       externalFound = True, easyResult = Applied, externalStatus = Skipped,
       applyThrows = False, dismissThrows = False, dismissInCatchThrows = False \<rparr>"

definition exCards :: "nat \<Rightarrow> card_observation" where
  "exCards i = (if i = 2 then exCard ''Data Engineer'' False else exCard ''Backend  Engineer'' True)"

definition exRun :: run_observation where
  "exRun = \<lparr> pagePresent = True, cardCount = Some 3, cards = exCards \<rparr>"

definition afterFirstCard :: session where
  "afterFirstCard =
     \<lparr> applied = 1, failed = 0, manualHelp = 0,
       processedJobKeys = {''backend engineer|acme|sydney, australia''},
       currentJobContext = captureCurrentJobContext (exCards 0) (jobLabel (exCards 0) 0),
       applyAttempts = [''backend engineer|acme|sydney, australia''] \<rparr>"

text \<open>
  A form with three questions, each with the options Yes and No or A and B, none selected;
  the same kind of form with one question whose radios are disabled, so that neither
  \<^verbatim>\<open>check()\<close> nor the forced click selects them; and a form with one question whose
  radios have no name, the option No selected.
\<close>

definition exRadio :: "string \<Rightarrow> string \<Rightarrow> bool \<Rightarrow> radio" where
  "exRadio question option enabled =
     \<lparr> idAttr = Returns None, forLabelText = None, wrapLabelText = Some option,
       radioName = question, formOwner = Some 0, checked = False, responds = enabled \<rparr>"

definition exGroup :: "string \<Rightarrow> nat list \<Rightarrow> radio_group" where
  "exGroup question ms = \<lparr> groupText = Returns (Some question), countFails = False, members = ms \<rparr>"

definition exForm :: form_root where
  "exForm =
     \<lparr> rootClosed = False, rootDetached = False, groupsFail = False,
       groups = [exGroup ''Will you require visa sponsorship? Yes No'' [0, 1],
                 exGroup ''Are you over 18? Yes No'' [2, 3],
                 exGroup ''Preferred office A B'' [4, 5]],
       radios = [exRadio ''q1'' ''Yes'' True, exRadio ''q1'' ''No'' True,
                 exRadio ''q2'' ''Yes'' True, exRadio ''q2'' ''No'' True,
                 exRadio ''q3'' ''A'' True, exRadio ''q3'' ''B'' True] \<rparr>"

definition disabledGroup :: radio_group where
  "disabledGroup = exGroup ''Will you require visa sponsorship? Yes No'' [0, 1]"

definition disabledForm :: form_root where
  "disabledForm =
     \<lparr> rootClosed = False, rootDetached = False, groupsFail = False,
       groups = [disabledGroup],
       radios = [exRadio ''q1'' ''Yes'' False, exRadio ''q1'' ''No'' False] \<rparr>"

definition namelessGroup :: radio_group where
  "namelessGroup = exGroup ''Are you over 18? Yes No'' [0, 1]"

definition namelessForm :: form_root where
  "namelessForm =
     \<lparr> rootClosed = False, rootDetached = False, groupsFail = False,
       groups = [namelessGroup],
       radios = [exRadio [] ''Yes'' True, (exRadio [] ''No'' True)\<lparr> checked := True \<rparr>] \<rparr>"

section \<open>Verified properties\<close>

subsection \<open>Strings and patterns\<close>

lemma toLowerCase_append: "toLowerCase (a @ b) = toLowerCase a @ toLowerCase b"
  by (simp add: toLowerCase_def)

lemma includesStr_iff: "includesStr s t \<longleftrightarrow> (\<exists>p q. s = p @ t @ q)"
proof (induction s)
  case Nil
  then show ?case by auto
next
  case (Cons c cs)
  show ?case
  proof
    assume "includesStr (c # cs) t"
    then consider "prefix t (c # cs)" | "includesStr cs t" by auto
    then show "\<exists>p q. c # cs = p @ t @ q"
    proof cases
      case 1
      then obtain q where "c # cs = t @ q" by (auto simp: prefix_def)
      then have "c # cs = [] @ t @ q" by simp
      then show ?thesis by blast
    next
      case 2
      then obtain p q where "cs = p @ t @ q" using Cons.IH by blast
      then have "c # cs = (c # p) @ t @ q" by simp
      then show ?thesis by blast
    qed
  next
    assume "\<exists>p q. c # cs = p @ t @ q"
    then obtain p q where pq: "c # cs = p @ t @ q" by blast
    show "includesStr (c # cs) t"
    proof (cases p)
      case Nil
      then have "prefix t (c # cs)" using pq by (simp add: prefix_def)
      then show ?thesis by simp
    next
      case (Cons a p')
      then have "cs = p' @ t @ q" using pq by simp
      then have "includesStr cs t" using Cons.IH by blast
      then show ?thesis by simp
    qed
  qed
qed

lemma includesStr_append_left: "includesStr a t \<Longrightarrow> includesStr (a @ b) t"
  unfolding includesStr_iff by (metis append.assoc)

lemma includesStr_append_right: "includesStr b t \<Longrightarrow> includesStr (a @ b) t"
  unfolding includesStr_iff by (metis append.assoc)


lemma reps_length:
  "(\<And>s x. x \<in> set (f s) \<Longrightarrow> length x \<le> length s) \<Longrightarrow>
   x \<in> set (reps f m n s) \<Longrightarrow> length x \<le> length s"
proof (induction f m n s arbitrary: x rule: reps.induct)
  case (1 f m n s)
  from "1.prems"(2) obtain y where y: "y \<in> set (f s)" "x \<in> set (reps f m n y)" by auto
  have "length x \<le> length y" using "1.IH"[OF y(1) "1.prems"(1) y(2)] .
  moreover have "length y \<le> length s" using "1.prems"(1) y(1) by blast
  ultimately show ?case by simp
next
  case (2 f n s)
  from "2.prems"(2) consider "x = s" | y where "y \<in> set (f s)" "x \<in> set (reps f 0 n y)" by auto
  then show ?case
  proof cases
    case 1
    then show ?thesis by simp
  next
    case (2 y)
    have "length x \<le> length y" using "2.IH"[OF 2(1) "2.prems"(1) 2(2)] .
    moreover have "length y \<le> length s" using "2.prems"(1) 2(1) by blast
    ultimately show ?thesis by simp
  qed
next
  case (3 f s)
  then show ?case by simp
qed

lemma rxm_length: "x \<in> set (rxm r s) \<Longrightarrow> length x \<le> length s"
proof (induction r arbitrary: x s)
  case (Cls p)
  then show ?case by (auto split: list.splits if_splits)
next
  case (Lit l)
  then show ?case by (auto split: if_splits)
next
  case (Seq a b)
  from Seq.prems obtain y where y: "y \<in> set (rxm a s)" "x \<in> set (rxm b y)" by auto
  then have "length x \<le> length y" "length y \<le> length s" using Seq.IH by blast+
  then show ?case by simp
next
  case (Alt a b)
  then show ?case by auto
next
  case (Opt a)
  then show ?case by auto
next
  case (Rep m n a)
  then show ?case using reps_length[of "rxm a"] by auto
next
  case (PlusC p)
  then show ?case by auto
next
  case (StarC p)
  then show ?case by auto
next
  case NoWordNext
  then show ?case by (auto split: list.splits if_splits)
qed

lemma rxm_currency_head:
  "x \<in> set (rxm currency s) \<Longrightarrow> s \<noteq> [] \<and> \<not> isSpace (hd s) \<and> length x < length s"
  by (auto simp: currency_def isSpace_def prefix_def split: if_splits)

lemma rxm_salaryRange_head:
  assumes "x \<in> set (rxm salaryRangeRx s)"
  shows "s \<noteq> [] \<and> \<not> isSpace (hd s) \<and> length x < length s"
proof -
  obtain R where R: "salaryRangeRx = Seq currency R"
    by (simp add: salaryRangeRx_def seqs_def)
  from assms obtain y where y: "y \<in> set (rxm currency s)" "x \<in> set (rxm R y)"
    unfolding R by auto
  have "length x \<le> length y" using rxm_length[OF y(2)] .
  then show ?thesis using rxm_currency_head[OF y(1)] by simp
qed

lemma rxfind_salaryRange_head:
  "rxfind salaryRangeRx s = Some m \<Longrightarrow> m \<noteq> [] \<and> \<not> isSpace (hd m)"
proof (induction s)
  case Nil
  then show ?case using rxm_salaryRange_head[of _ "[]"] by (auto split: list.splits)
next
  case (Cons c cs)
  show ?case
  proof (cases "rxm salaryRangeRx (c # cs)")
    case Nil
    then show ?thesis using Cons by simp
  next
    case (Cons rest rs)
    then have "rest \<in> set (rxm salaryRangeRx (c # cs))" by simp
    from rxm_salaryRange_head[OF this] have h: "\<not> isSpace c" "length rest < Suc (length cs)" by auto
    from Cons Cons.prems have m: "m = take (Suc (length cs) - length rest) (c # cs)" by simp
    from h(2) obtain k where "Suc (length cs) - length rest = Suc k" by (metis Suc_diff_Suc)
    then have "m = c # take k cs" using m by simp
    then show ?thesis using h(1) by simp
  qed
qed

lemma trim_collapseWs_nonempty: "m \<noteq> [] \<Longrightarrow> \<not> isSpace (hd m) \<Longrightarrow> trim (collapseWs m) \<noteq> []"
proof -
  assume "m \<noteq> []" and h: "\<not> isSpace (hd m)"
  then obtain c cs where m: "m = c # cs" by (cases m) auto
  then have "collapseWs m = c # collapseWs cs" using h by simp
  then have "trim (collapseWs m) = rev (dropWhile isSpace (rev (collapseWs cs) @ [c]))"
    using h m by (simp add: trim_def)
  moreover have "dropWhile isSpace (rev (collapseWs cs) @ [c]) \<noteq> []"
    using h m by (simp add: dropWhile_eq_Nil_conv)
  ultimately show ?thesis by simp
qed

lemma sydney_text: "includesStr (salaryText jc) ''australia''" if "location jc = ''Sydney, Australia''"
proof -
  have "includesStr (toLowerCase ''Sydney, Australia'') ''australia''" by code_simp
  then show ?thesis using that
    unfolding salaryText_def toLowerCase_append by (simp add: includesStr_append_left)
qed

lemma rxfind_includes: "rxfind r s = Some m \<Longrightarrow> includesStr s m"
proof (induction s)
  case Nil
  then show ?case by (simp split: list.splits)
next
  case (Cons c cs)
  show ?case
  proof (cases "rxm r (c # cs)")
    case Nil
    then show ?thesis using Cons by simp
  next
    case (Cons rest rs)
    then have "m = take (length (c # cs) - length rest) (c # cs)" using Cons.prems by simp
    then have "prefix m (c # cs)" by (metis take_is_prefix)
    then show ?thesis by simp
  qed
qed

text \<open>
  Claim C8, amended. When the job context's location is \<^verbatim>\<open>Sydney, Australia\<close> and the
  lower-cased text \<^verbatim>\<open>location + " " + description\<close> holds no match of the currency-range
  pattern, \<open>getExpectedSalaryFallback\<close> returns exactly \<^verbatim>\<open>AUD 130000\<close>. Whatever the job
  context is, the result is a non-empty string:
  \<^item> when the pattern matches, the leftmost match in the lower-cased text, with its white
    space collapsed and trimmed (not the text of the job as it was written);
  \<^item> else \<^verbatim>\<open>AUD 130000\<close> when the text contains \<^verbatim>\<open>australia\<close>, \<^verbatim>\<open>sydney\<close> or \<^verbatim>\<open>melbourne\<close>;
  \<^item> else \<^verbatim>\<open>3500000\<close> when it contains \<^verbatim>\<open>india\<close>, \<^verbatim>\<open>bengaluru\<close> or \<^verbatim>\<open>bangalore\<close>;
  \<^item> else \<^verbatim>\<open>140000\<close>.
\<close>

theorem getExpectedSalaryFallback_sydney_nonempty:
  "(location jc = ''Sydney, Australia'' \<and> rxfind salaryRangeRx (salaryText jc) = None
      \<longrightarrow> getExpectedSalaryFallback jc = ''AUD 130000'')
   \<and> getExpectedSalaryFallback jc \<noteq> []
   \<and> (\<forall>m. rxfind salaryRangeRx (salaryText jc) = Some m
          \<longrightarrow> includesStr (salaryText jc) m \<and> getExpectedSalaryFallback jc = trim (collapseWs m))
   \<and> (rxfind salaryRangeRx (salaryText jc) = None
        \<and> (includesStr (salaryText jc) ''australia'' \<or> includesStr (salaryText jc) ''sydney''
             \<or> includesStr (salaryText jc) ''melbourne'')
        \<longrightarrow> getExpectedSalaryFallback jc = ''AUD 130000'')
   \<and> (rxfind salaryRangeRx (salaryText jc) = None
        \<and> \<not> (includesStr (salaryText jc) ''australia'' \<or> includesStr (salaryText jc) ''sydney''
               \<or> includesStr (salaryText jc) ''melbourne'')
        \<and> (includesStr (salaryText jc) ''india'' \<or> includesStr (salaryText jc) ''bengaluru''
             \<or> includesStr (salaryText jc) ''bangalore'')
        \<longrightarrow> getExpectedSalaryFallback jc = ''3500000'')
   \<and> (rxfind salaryRangeRx (salaryText jc) = None
        \<and> \<not> (includesStr (salaryText jc) ''australia'' \<or> includesStr (salaryText jc) ''sydney''
               \<or> includesStr (salaryText jc) ''melbourne'')
        \<and> \<not> (includesStr (salaryText jc) ''india'' \<or> includesStr (salaryText jc) ''bengaluru''
               \<or> includesStr (salaryText jc) ''bangalore'')
        \<longrightarrow> getExpectedSalaryFallback jc = ''140000'')"
proof (intro conjI impI allI)
  assume "location jc = ''Sydney, Australia'' \<and> rxfind salaryRangeRx (salaryText jc) = None"
  then show "getExpectedSalaryFallback jc = ''AUD 130000''"
    using sydney_text[of jc] by (simp add: getExpectedSalaryFallback_def)
next
  show "getExpectedSalaryFallback jc \<noteq> []"
  proof (cases "rxfind salaryRangeRx (salaryText jc)")
    case None
    then show ?thesis by (simp add: getExpectedSalaryFallback_def Let_def)
  next
    case (Some m)
    then show ?thesis
      using rxfind_salaryRange_head[OF Some] trim_collapseWs_nonempty[of m]
      by (simp add: getExpectedSalaryFallback_def)
  qed
next
  fix m assume "rxfind salaryRangeRx (salaryText jc) = Some m"
  then show "includesStr (salaryText jc) m" by (rule rxfind_includes)
next
  fix m assume "rxfind salaryRangeRx (salaryText jc) = Some m"
  then show "getExpectedSalaryFallback jc = trim (collapseWs m)"
    by (simp add: getExpectedSalaryFallback_def)
next
  assume "rxfind salaryRangeRx (salaryText jc) = None
        \<and> (includesStr (salaryText jc) ''australia'' \<or> includesStr (salaryText jc) ''sydney''
             \<or> includesStr (salaryText jc) ''melbourne'')"
  then show "getExpectedSalaryFallback jc = ''AUD 130000''"
    by (simp add: getExpectedSalaryFallback_def Let_def)
next
  assume "rxfind salaryRangeRx (salaryText jc) = None
        \<and> \<not> (includesStr (salaryText jc) ''australia'' \<or> includesStr (salaryText jc) ''sydney''
               \<or> includesStr (salaryText jc) ''melbourne'')
        \<and> (includesStr (salaryText jc) ''india'' \<or> includesStr (salaryText jc) ''bengaluru''
             \<or> includesStr (salaryText jc) ''bangalore'')"
  then show "getExpectedSalaryFallback jc = ''3500000''"
    by (simp add: getExpectedSalaryFallback_def Let_def)
next
  assume "rxfind salaryRangeRx (salaryText jc) = None
        \<and> \<not> (includesStr (salaryText jc) ''australia'' \<or> includesStr (salaryText jc) ''sydney''
               \<or> includesStr (salaryText jc) ''melbourne'')
        \<and> \<not> (includesStr (salaryText jc) ''india'' \<or> includesStr (salaryText jc) ''bengaluru''
               \<or> includesStr (salaryText jc) ''bangalore'')"
  then show "getExpectedSalaryFallback jc = ''140000''"
    by (simp add: getExpectedSalaryFallback_def Let_def)
qed

theorem getExpectedSalaryFallback_sydney_witness:
  "getExpectedSalaryFallback exJob = ''AUD 130000''
   \<and> getExpectedSalaryFallback indiaJob = ''3500000''
   \<and> getExpectedSalaryFallback plainJob = ''140000''
   \<and> getExpectedSalaryFallback rangeJob = ''usd 50-60''"
proof -
  have a: "location exJob = ''Sydney, Australia''" "rxfind salaryRangeRx (salaryText exJob) = None"
    by code_simp+
  have i: "rxfind salaryRangeRx (salaryText indiaJob) = None"
    "\<not> (includesStr (salaryText indiaJob) ''australia'' \<or> includesStr (salaryText indiaJob) ''sydney''
               \<or> includesStr (salaryText indiaJob) ''melbourne'')"
    "includesStr (salaryText indiaJob) ''india'' \<or> includesStr (salaryText indiaJob) ''bengaluru''
             \<or> includesStr (salaryText indiaJob) ''bangalore''"
    by code_simp+
  have p: "rxfind salaryRangeRx (salaryText plainJob) = None"
    "\<not> (includesStr (salaryText plainJob) ''australia'' \<or> includesStr (salaryText plainJob) ''sydney''
               \<or> includesStr (salaryText plainJob) ''melbourne'')"
    "\<not> (includesStr (salaryText plainJob) ''india'' \<or> includesStr (salaryText plainJob) ''bengaluru''
               \<or> includesStr (salaryText plainJob) ''bangalore'')"
    by code_simp+
  have r: "rxfind salaryRangeRx (salaryText rangeJob) = Some ''usd 50-60 ''"
    "trim (collapseWs ''usd 50-60 '') = ''usd 50-60''"
    by code_simp+
  have "getExpectedSalaryFallback exJob = ''AUD 130000''"
    using getExpectedSalaryFallback_sydney_nonempty[of exJob] a by blast
  moreover have "getExpectedSalaryFallback indiaJob = ''3500000''"
    using getExpectedSalaryFallback_sydney_nonempty[of indiaJob] i by blast
  moreover have "getExpectedSalaryFallback plainJob = ''140000''"
    using getExpectedSalaryFallback_sydney_nonempty[of plainJob] p by blast
  moreover have "getExpectedSalaryFallback rangeJob = ''usd 50-60''"
    using getExpectedSalaryFallback_sydney_nonempty[of rangeJob] r by metis
  ultimately show ?thesis by blast
qed

text \<open>
  The claim C8 as stated says that a range match is returned verbatim. For the description
  \<^verbatim>\<open>Pay: USD 50-60 per hour\<close> the match in the lower-cased text is \<^verbatim>\<open>usd 50-60\<close> followed by
  a space; the result is that match trimmed, and it does not occur in the text of the job.
\<close>

theorem getExpectedSalaryFallback_counterexample:
  "rxfind salaryRangeRx (salaryText rangeJob) = Some ''usd 50-60 ''
   \<and> getExpectedSalaryFallback rangeJob = ''usd 50-60''
   \<and> getExpectedSalaryFallback rangeJob \<noteq> ''usd 50-60 ''
   \<and> \<not> includesStr (location rangeJob @ '' '' @ description rangeJob)
          (getExpectedSalaryFallback rangeJob)"
  by code_simp

subsection \<open>Field intent classifier\<close>

lemma getExpectedSalaryFallback_nonempty: "getExpectedSalaryFallback jc \<noteq> []"
proof (cases "rxfind salaryRangeRx (salaryText jc)")
  case None
  then show ?thesis by (simp add: getExpectedSalaryFallback_def Let_def)
next
  case (Some m)
  then show ?thesis
    using rxfind_salaryRange_head[OF Some] trim_collapseWs_nonempty[of m]
    by (simp add: getExpectedSalaryFallback_def)
qed

lemma orElse_nonempty: "b \<noteq> [] \<Longrightarrow> orElse a b \<noteq> []"
  by (simp add: orElse_def split: option.splits)

lemma orNull_nonempty: "orNull s \<noteq> Some []"
  by (simp add: orNull_def)

lemma yesNo_nonempty: "yesNo b \<noteq> []"
  by (simp add: yesNo_def)

lemma yearsExperience_nonempty: "yearsExperience (answerHints e) \<noteq> []"
  by (simp add: answerHints_def orElse_nonempty)

lemma heuristic_nonempty: "getHeuristicFieldAnswer e jc ctx t \<noteq> Some []"
  by (simp add: getHeuristicFieldAnswer_def Let_def getExpectedSalaryFallback_nonempty
      orNull_nonempty yesNo_nonempty yearsExperience_nonempty)

lemma compatible_nonempty: "isAnswerCompatibleWithIntent v i t \<Longrightarrow> v \<noteq> None \<and> v \<noteq> Some []"
  by (auto simp: isAnswerCompatibleWithIntent_def split: option.splits if_splits)


lemma cacheAndReturn_simps:
  "answer (cacheAndReturn c k v ps) = v"
  "prompts (cacheAndReturn c k v ps) = ps"
  "cache (cacheAndReturn c k v ps) = (case v of None \<Rightarrow> c | Some a \<Rightarrow> if a = [] then c else c(k \<mapsto> a))"
  by (simp_all add: cacheAndReturn_def split: option.splits)



lemma infer_cache_shape:
  "cache (inferFieldAnswer m e jc c ctx t) =
     (case answer (inferFieldAnswer m e jc c ctx t) of
        None \<Rightarrow> c | Some a \<Rightarrow> c(cacheKey t ctx \<mapsto> a))"
  using heuristic_nonempty[of e jc ctx t] compatible_nonempty
  by (auto simp: inferFieldAnswer_def Let_def cacheAndReturn_simps fun_upd_idem
      split: option.splits llm_response.splits)

lemma infer_cache_cong:
  assumes "c (cacheKey t ctx) = c' (cacheKey t ctx)"
  shows "answer (inferFieldAnswer m e jc c ctx t) = answer (inferFieldAnswer m e jc c' ctx t)"
    and "prompts (inferFieldAnswer m e jc c ctx t) = prompts (inferFieldAnswer m e jc c' ctx t)"
  using assms
  by (auto simp: inferFieldAnswer_def Let_def cacheAndReturn_simps
      split: option.splits llm_response.splits)


lemma toLowerChar_colon: "toLowerChar x = CHR '':'' \<longleftrightarrow> x = CHR '':''"
proof -
  have "(of_char (toLowerChar x) :: nat) = 58 \<longleftrightarrow> (of_char x :: nat) = 58"
    by (auto simp: toLowerChar_def Let_def mod_if)
  moreover have "(of_char (CHR '':'') :: nat) = 58" by simp
  ultimately have "(of_char (toLowerChar x) :: nat) = of_char (CHR '':'')
      \<longleftrightarrow> (of_char x :: nat) = of_char (CHR '':'')" by simp
  then show ?thesis by (simp only: of_char_eq_iff)
qed







lemma cacheKey_nth:
  "i < 300 \<Longrightarrow> i < length t + 1 + length ctx \<Longrightarrow>
   cacheKey t ctx ! i = toLowerChar ((t @ '':'' @ ctx) ! i)"
  by (simp add: cacheKey_def toLowerCase_def substring0_def del: take_append map_append)

lemma cacheKey_take:
  "length t < 300 \<Longrightarrow> take (length t) (cacheKey t ctx) = toLowerCase t"
  by (simp add: cacheKey_def toLowerCase_def substring0_def take_map min_def flip: map_append)

lemma cacheKey_distinct_types:
  assumes low: "toLowerCase t1 \<noteq> toLowerCase t2"
    and c1: "CHR '':'' \<notin> set t1" and c2: "CHR '':'' \<notin> set t2"
    and l1: "length t1 < 300" and l2: "length t2 < 300"
  shows "cacheKey t1 ctx \<noteq> cacheKey t2 ctx"
proof
  assume eq: "cacheKey t1 ctx = cacheKey t2 ctx"
  have sep: "cacheKey t ctx ! length t = CHR '':''" if "length t < 300" for t
    using that cacheKey_nth[of "length t" t ctx] by (simp add: nth_append toLowerChar_def)
  have inside: "cacheKey t ctx ! i \<noteq> CHR '':''"
    if "i < length t" "length t < 300" "CHR '':'' \<notin> set t" for t i
  proof -
    have "cacheKey t ctx ! i = toLowerChar (t ! i)"
      using that cacheKey_nth[of i t ctx] by (simp add: nth_append)
    moreover have "t ! i \<noteq> CHR '':''" using that by (metis nth_mem)
    ultimately show ?thesis by (simp add: toLowerChar_colon)
  qed
  consider "length t1 = length t2" | "length t1 < length t2" | "length t2 < length t1"
    by linarith
  then show False
  proof cases
    case 1
    have "toLowerCase t1 = take (length t1) (cacheKey t1 ctx)" using l1 by (simp add: cacheKey_take)
    also have "\<dots> = take (length t2) (cacheKey t2 ctx)" using eq 1 by simp
    also have "\<dots> = toLowerCase t2" using l2 by (simp add: cacheKey_take)
    finally show False using low by simp
  next
    case 2
    then show False using sep[OF l1] inside[OF 2 l2 c2] eq by simp
  next
    case 3
    then show False using sep[OF l2] inside[OF 3 l1 c1] eq by simp
  qed
qed

lemma declaredFieldTypes_plain:
  "\<forall>t \<in> set declaredFieldTypes. toLowerCase t = t \<and> CHR '':'' \<notin> set t \<and> length t < 300"
  by code_simp

lemma declaredFieldTypes_keys:
  assumes "t1 \<in> set declaredFieldTypes" and "t2 \<in> set declaredFieldTypes" and "t1 \<noteq> t2"
  shows "cacheKey t1 ctx \<noteq> cacheKey t2 ctx"
proof (rule cacheKey_distinct_types)
  show "toLowerCase t1 \<noteq> toLowerCase t2"
    using assms declaredFieldTypes_plain by simp
  show "CHR '':'' \<notin> set t1" "CHR '':'' \<notin> set t2" "length t1 < 300" "length t2 < 300"
    using assms declaredFieldTypes_plain by simp_all
qed

text \<open>
  Claim C6. The field types that the callers of \<open>inferFieldAnswer\<close> pass are the ones listed
  in \<open>declaredFieldTypes\<close>: \<^verbatim>\<open>text\<close>, \<^verbatim>\<open>number\<close>, \<^verbatim>\<open>search\<close>, \<^verbatim>\<open>url\<close>, \<^verbatim>\<open>tel\<close> and \<^verbatim>\<open>email\<close>. For
  two of them that are distinct, and one field context, the cache keys differ. So a call
  for the first type, whatever it returns and stores, leaves the entry of the second type
  as it was, and a later call for the second type does not get the answer cached by the
  first: it returns what it would have returned without the first call, and sends the
  same prompts.
\<close>

theorem inferFieldAnswer_cache_isolation:
  assumes "t1 \<in> set declaredFieldTypes" and "t2 \<in> set declaredFieldTypes" and "t1 \<noteq> t2"
  shows "cacheKey t1 ctx \<noteq> cacheKey t2 ctx
    \<and> cache (inferFieldAnswer m e jc c ctx t1) (cacheKey t2 ctx) = c (cacheKey t2 ctx)
    \<and> answer (inferFieldAnswer m' e jc (cache (inferFieldAnswer m e jc c ctx t1)) ctx t2)
        = answer (inferFieldAnswer m' e jc c ctx t2)
    \<and> prompts (inferFieldAnswer m' e jc (cache (inferFieldAnswer m e jc c ctx t1)) ctx t2)
        = prompts (inferFieldAnswer m' e jc c ctx t2)"
proof -
  have ne: "cacheKey t1 ctx \<noteq> cacheKey t2 ctx"
    using assms by (rule declaredFieldTypes_keys)
  have same: "cache (inferFieldAnswer m e jc c ctx t1) (cacheKey t2 ctx) = c (cacheKey t2 ctx)"
    using ne by (simp add: infer_cache_shape split: option.splits)
  show ?thesis
    using ne same infer_cache_cong[of "cache (inferFieldAnswer m e jc c ctx t1)" t2 ctx c m' e jc]
    by simp
qed

lemma includesStr_longer: "includesStr s (a @ b) \<Longrightarrow> includesStr s a"
  unfolding includesStr_iff by (metis append.assoc)

lemma sponsorship_sponsor: "includesStr s ''sponsorship'' \<Longrightarrow> includesStr s ''sponsor''"
  using includesStr_longer[of s "''sponsor''" "''ship''"] by simp

lemma preferred_total:
  "detectFieldIntent ctx t \<in> {NoticePeriod, Experience, Sponsorship, Relocate}
   \<Longrightarrow> getHeuristicFieldAnswer e jc ctx t \<noteq> None"
  by (auto simp: detectFieldIntent_def getHeuristicFieldAnswer_def Let_def
      dest: sponsorship_sponsor split: if_splits)

lemma visa_total:
  "detectFieldIntent ctx t = Visa \<Longrightarrow>
   includesStr (toLowerCase ctx) ''visa'' \<or> includesStr (toLowerCase ctx) ''work authorization''
   \<Longrightarrow> getHeuristicFieldAnswer e jc ctx t \<noteq> None"
  by (auto simp: detectFieldIntent_def getHeuristicFieldAnswer_def Let_def split: if_splits)

lemma preferred_answer:
  assumes pref: "shouldPreferHeuristic (detectFieldIntent ctx t)"
    and heur: "getHeuristicFieldAnswer e jc ctx t = Some h"
  shows "inferFieldAnswer m e jc c ctx t =
           (case c (cacheKey t ctx) of
              None \<Rightarrow> \<lparr> answer = Some h, cache = c(cacheKey t ctx \<mapsto> h), prompts = [] \<rparr>
            | Some v \<Rightarrow>
                if v = [] then \<lparr> answer = Some h, cache = c(cacheKey t ctx \<mapsto> h), prompts = [] \<rparr>
                else \<lparr> answer = Some v, cache = c, prompts = [] \<rparr>)"
proof -
  have h: "h \<noteq> []" using heuristic_nonempty[of e jc ctx t] heur by auto
  show ?thesis
  proof (cases m)
    case None
    then show ?thesis
      using h heur by (simp add: inferFieldAnswer_def Let_def cacheAndReturn_def split: option.splits)
  next
    case (Some client)
    then show ?thesis
      using h heur pref
      by (simp add: inferFieldAnswer_def Let_def cacheAndReturn_def split: option.splits)
  qed
qed

text \<open>
  Claim C1, amended. Take a field whose detected intent is sponsorship, relocate, visa,
  experience, location, linkedin, portfolio or notice-period, and for which
  \<open>getHeuristicFieldAnswer\<close> has a value. Whether or not a language model is available,
  \<open>inferFieldAnswer\<close> sends no prompt to it, and returns the entry that the answer cache
  holds under the key of the field when there is one, and the heuristic value otherwise;
  on one cache, the result and the cache left behind are the same for any two language
  models, available or not. The entry under the key may have been stored for another
  field whose key is the same, so it need not be the heuristic value of this field.

  The heuristic has a value for every field of intent notice-period, experience,
  sponsorship or relocate, and for every field of intent visa whose context contains
  \<^verbatim>\<open>visa\<close> or \<^verbatim>\<open>work authorization\<close>.
\<close>

theorem inferFieldAnswer_heuristic_preferred:
  "(detectFieldIntent ctx t \<in>
       {Sponsorship, Relocate, Visa, Experience, Location, LinkedIn, Portfolio, NoticePeriod}
     \<and> getHeuristicFieldAnswer e jc ctx t = Some h
     \<longrightarrow> prompts (inferFieldAnswer m e jc c ctx t) = []
         \<and> answer (inferFieldAnswer m e jc c ctx t) =
             (case c (cacheKey t ctx) of
                None \<Rightarrow> Some h
              | Some v \<Rightarrow> if v = [] then Some h else Some v)
         \<and> inferFieldAnswer m e jc c ctx t = inferFieldAnswer m' e jc c ctx t)
   \<and> (detectFieldIntent ctx t \<in> {NoticePeriod, Experience, Sponsorship, Relocate}
        \<longrightarrow> getHeuristicFieldAnswer e jc ctx t \<noteq> None)
   \<and> (detectFieldIntent ctx t = Visa
        \<and> (includesStr (toLowerCase ctx) ''visa''
             \<or> includesStr (toLowerCase ctx) ''work authorization'')
        \<longrightarrow> getHeuristicFieldAnswer e jc ctx t \<noteq> None)"
proof (intro conjI impI)
  assume a: "detectFieldIntent ctx t \<in>
       {Sponsorship, Relocate, Visa, Experience, Location, LinkedIn, Portfolio, NoticePeriod}
     \<and> getHeuristicFieldAnswer e jc ctx t = Some h"
  then have pref: "shouldPreferHeuristic (detectFieldIntent ctx t)"
    by (auto simp: shouldPreferHeuristic_def)
  have heur: "getHeuristicFieldAnswer e jc ctx t = Some h" using a by simp
  show "prompts (inferFieldAnswer m e jc c ctx t) = []"
    by (simp add: preferred_answer[OF pref heur] split: option.splits)
  show "answer (inferFieldAnswer m e jc c ctx t) =
             (case c (cacheKey t ctx) of
                None \<Rightarrow> Some h
              | Some v \<Rightarrow> if v = [] then Some h else Some v)"
    by (simp add: preferred_answer[OF pref heur] split: option.splits)
  show "inferFieldAnswer m e jc c ctx t = inferFieldAnswer m' e jc c ctx t"
    by (simp only: preferred_answer[OF pref heur])
next
  assume "detectFieldIntent ctx t \<in> {NoticePeriod, Experience, Sponsorship, Relocate}"
  then show "getHeuristicFieldAnswer e jc ctx t \<noteq> None" by (rule preferred_total)
next
  assume "detectFieldIntent ctx t = Visa
        \<and> (includesStr (toLowerCase ctx) ''visa''
             \<or> includesStr (toLowerCase ctx) ''work authorization'')"
  then show "getHeuristicFieldAnswer e jc ctx t \<noteq> None" using visa_total[of ctx t e jc] by blast
qed

theorem inferFieldAnswer_heuristic_preferred_witness:
  "detectFieldIntent ''years of experience'' ''number'' = Experience
   \<and> getHeuristicFieldAnswer exEnv exJob ''years of experience'' ''number'' = Some ''3''
   \<and> prompts (inferFieldAnswer (Some (exLlm ''7'')) exEnv exJob emptyCache ''years of experience'' ''number'') = []
   \<and> answer (inferFieldAnswer (Some (exLlm ''7'')) exEnv exJob emptyCache ''years of experience'' ''number'')
       = Some ''3''
   \<and> inferFieldAnswer (Some (exLlm ''7'')) exEnv exJob emptyCache ''years of experience'' ''number''
       = inferFieldAnswer None exEnv exJob emptyCache ''years of experience'' ''number''"
proof -
  have i: "detectFieldIntent ''years of experience'' ''number'' = Experience" by code_simp
  then have 1: "detectFieldIntent ''years of experience'' ''number'' \<in>
      {Sponsorship, Relocate, Visa, Experience, Location, LinkedIn, Portfolio, NoticePeriod}" by simp
  have 2: "getHeuristicFieldAnswer exEnv exJob ''years of experience'' ''number'' = Some ''3''"
    by code_simp
  have 3: "emptyCache (cacheKey ''number'' ''years of experience'') = None"
    by (simp add: emptyCache_def)
  have r: "prompts (inferFieldAnswer (Some (exLlm ''7'')) exEnv exJob emptyCache
          ''years of experience'' ''number'') = []
     \<and> answer (inferFieldAnswer (Some (exLlm ''7'')) exEnv exJob emptyCache
          ''years of experience'' ''number'') =
         (case emptyCache (cacheKey ''number'' ''years of experience'') of
            None \<Rightarrow> Some ''3''
          | Some v \<Rightarrow> if v = [] then Some ''3'' else Some v)
     \<and> inferFieldAnswer (Some (exLlm ''7'')) exEnv exJob emptyCache ''years of experience'' ''number''
         = inferFieldAnswer None exEnv exJob emptyCache ''years of experience'' ''number''"
    using inferFieldAnswer_heuristic_preferred[where ctx = "''years of experience''" and t = "''number''"
        and e = exEnv and jc = exJob and h = "''3''" and m = "Some (exLlm ''7'')" and m' = None
        and c = emptyCache] 1 2
    by blast
  have v: "(case emptyCache (cacheKey ''number'' ''years of experience'') of
            None \<Rightarrow> Some ''3''
          | Some v \<Rightarrow> if v = [] then Some ''3'' else Some v) = Some ''3''"
    by (simp only: 3 option.case)
  have p: "prompts (inferFieldAnswer (Some (exLlm ''7'')) exEnv exJob emptyCache
          ''years of experience'' ''number'') = []"
    using r by (rule conjunct1)
  have a0: "answer (inferFieldAnswer (Some (exLlm ''7'')) exEnv exJob emptyCache
          ''years of experience'' ''number'') =
         (case emptyCache (cacheKey ''number'' ''years of experience'') of
            None \<Rightarrow> Some ''3''
          | Some v \<Rightarrow> if v = [] then Some ''3'' else Some v)"
    using r by (rule conjunct1[OF conjunct2])
  have a: "answer (inferFieldAnswer (Some (exLlm ''7'')) exEnv exJob emptyCache
          ''years of experience'' ''number'') = Some ''3''"
    by (rule trans[OF a0 v])
  have same: "inferFieldAnswer (Some (exLlm ''7'')) exEnv exJob emptyCache ''years of experience'' ''number''
         = inferFieldAnswer None exEnv exJob emptyCache ''years of experience'' ''number''"
    using r by (rule conjunct2[OF conjunct2])
  show ?thesis by (intro conjI i 2 p a same)
qed

text \<open>
  The claim C1 as stated fails because the cache is read first, under a key that keeps
  300 characters only. Two required text fields of one form have contexts that share
  their first 295 characters; the first asks for the expected salary, the second for the
  years of experience, for which the configured value is \<^verbatim>\<open>3\<close>. After the first field has
  been answered, the second gets the answer of the first: with a language model the
  amount that the model gave, without one the salary fallback. Neither is the configured
  value, and the two differ.
\<close>

theorem inferFieldAnswer_heuristic_preferred_counterexample:
  "detectFieldIntent (paddedContext '' years of experience'') ''text'' = Experience
   \<and> getHeuristicFieldAnswer exEnv exJob (paddedContext '' years of experience'') ''text'' = Some ''3''
   \<and> answer (inferFieldAnswer (Some (exLlm ''150k'')) exEnv exJob
        (cache (inferFieldAnswer (Some (exLlm ''150k'')) exEnv exJob emptyCache
                  (paddedContext '' expected salary'') ''text''))
        (paddedContext '' years of experience'') ''text'') = Some ''150k''
   \<and> answer (inferFieldAnswer None exEnv exJob
        (cache (inferFieldAnswer None exEnv exJob emptyCache
                  (paddedContext '' expected salary'') ''text''))
        (paddedContext '' years of experience'') ''text'') = Some ''AUD 130000''"
  by code_simp

theorem inferFieldAnswer_cache_isolation_witness:
  "cacheKey ''text'' ''team size'' \<noteq> cacheKey ''number'' ''team size''
   \<and> answer (inferFieldAnswer (Some (exLlm ''a dozen'')) exEnv exJob emptyCache ''team size'' ''text'')
       = Some ''a dozen''
   \<and> answer (inferFieldAnswer (Some (exLlm ''a dozen'')) exEnv exJob
        (cache (inferFieldAnswer (Some (exLlm ''a dozen'')) exEnv exJob emptyCache ''team size'' ''text''))
        ''team size'' ''number'') = Some ''3''"
proof -
  have 1: "''text'' \<in> set declaredFieldTypes" "''number'' \<in> set declaredFieldTypes"
    by (simp_all add: declaredFieldTypes_def)
  have 2: "''text'' \<noteq> ''number''" by simp
  have 4: "answer (inferFieldAnswer (Some (exLlm ''a dozen'')) exEnv exJob emptyCache ''team size'' ''text'')
       = Some ''a dozen''" by code_simp
  have 5: "answer (inferFieldAnswer (Some (exLlm ''a dozen'')) exEnv exJob emptyCache ''team size'' ''number'')
       = Some ''3''" by code_simp
  show ?thesis
    using inferFieldAnswer_cache_isolation[OF 1 2, of "''team size''" "Some (exLlm ''a dozen'')"
        exEnv exJob emptyCache "Some (exLlm ''a dozen'')"] 4 5
    by simp
qed


subsection \<open>Action candidate ranker\<close>

lemma rankCandidate_Some:
  assumes "rankCandidate ex el = Some c"
  shows "locator c = el" and "label c = combinedText el" and "visible el" and "\<not> disabled el"
    and "\<not> isInformationalAction (label c)" and "\<not> isAuthAction (label c)"
    and "\<not> isNegativeAction (label c)" and "\<not> isUtilityAction (label c)"
    and "normalizeActionSignature (label c) \<notin> ex" and "0 < score c"
  using assms by (auto simp: rankCandidate_def Let_def split: if_splits)

lemma set_map_filter: "set (List.map_filter f xs) = {y. \<exists>x \<in> set xs. f x = Some y}"
  by (induction xs) (auto simp: List.map_filter_simps split: option.splits)

lemma set_sortByScore: "set (sortByScore cs) = set cs"
  by (simp add: sortByScore_def)

lemma selectExternalActionWithLLM_mem:
  "selectExternalActionWithLLM m p cs = Some c \<Longrightarrow> c \<in> set cs"
  by (auto simp: selectExternalActionWithLLM_def split: option.splits json_response.splits
      js_number.splits if_splits)

lemma findExternalActionButton_ranked:
  assumes "findExternalActionButton m p ex = Some c"
  shows "\<exists>ctx \<in> set (contexts p). \<exists>el \<in> set (controls ctx). rankCandidate ex el = Some c"
proof -
  let ?ranked = "concat (map (\<lambda>ctx. List.map_filter (rankCandidate ex) (controls ctx)) (contexts p))"
  have "c \<in> set (sortByScore ?ranked)"
  proof (cases "sortByScore ?ranked")
    case Nil
    then show ?thesis using assms by (simp add: findExternalActionButton_def)
  next
    case (Cons t rest)
    show ?thesis
    proof (cases "selectExternalActionWithLLM m p (take 8 (t # rest))")
      case None
      then show ?thesis using assms Cons by (simp add: findExternalActionButton_def)
    next
      case (Some l)
      then have "l \<in> set (take 8 (t # rest))" by (rule selectExternalActionWithLLM_mem)
      then have "l \<in> set (t # rest)" by (rule in_set_takeD)
      then show ?thesis using assms Cons Some by (simp add: findExternalActionButton_def)
    qed
  qed
  then have "c \<in> set ?ranked" by (simp only: set_sortByScore)
  then show ?thesis by (auto simp: set_map_filter)
qed

text \<open>
  Claim C7. Whatever the page, the set of excluded signatures and the language model are,
  a candidate that \<open>findExternalActionButton\<close> returns is a control of the page whose label
  is its combined text, and that text matches no informational, authentication or negative
  keyword; in particular it contains none of \<^verbatim>\<open>how to apply\<close>, \<^verbatim>\<open>sign in\<close>, \<^verbatim>\<open>cancel\<close> and
  \<^verbatim>\<open>discard\<close>. The score plays no part: such a control is dropped before it is scored.
\<close>

theorem findExternalActionButton_exclusions:
  assumes "findExternalActionButton m p ex = Some c"
  shows "label c = combinedText (locator c)
    \<and> (\<exists>ctx \<in> set (contexts p). locator c \<in> set (controls ctx))
    \<and> \<not> isInformationalAction (label c) \<and> \<not> isAuthAction (label c) \<and> \<not> isNegativeAction (label c)
    \<and> \<not> includesStr (label c) ''how to apply'' \<and> \<not> includesStr (label c) ''sign in''
    \<and> \<not> includesStr (label c) ''cancel'' \<and> \<not> includesStr (label c) ''discard''"
proof -
  from findExternalActionButton_ranked[OF assms] obtain ctx el
    where ctx: "ctx \<in> set (contexts p)" and el: "el \<in> set (controls ctx)"
      and r: "rankCandidate ex el = Some c" by blast
  note facts = rankCandidate_Some[OF r]
  have "\<exists>ctx \<in> set (contexts p). locator c \<in> set (controls ctx)"
    using ctx el facts(1) by blast
  moreover have "\<not> includesStr (label c) ''how to apply''"
    using facts(5) by (simp add: isInformationalAction_def)
  moreover have "\<not> includesStr (label c) ''sign in''"
    using facts(6) by (simp add: isAuthAction_def)
  moreover have "\<not> includesStr (label c) ''cancel''" "\<not> includesStr (label c) ''discard''"
    using facts(7) by (simp_all add: isNegativeAction_def)
  ultimately show ?thesis using facts by simp
qed

theorem findExternalActionButton_exclusions_witness:
  "findExternalActionButton None mixedPage {}
     = Some \<lparr> locator = exButton ''Next'', label = ''next'', score = 105 \<rparr>
   \<and> \<not> includesStr ''next'' ''how to apply'' \<and> \<not> includesStr ''next'' ''sign in''
   \<and> \<not> includesStr ''next'' ''cancel'' \<and> \<not> includesStr ''next'' ''discard''"
proof -
  have found: "findExternalActionButton None mixedPage {}
     = Some \<lparr> locator = exButton ''Next'', label = ''next'', score = 105 \<rparr>" by code_simp
  have l: "label \<lparr> locator = exButton ''Next'', label = ''next'', score = 105 \<rparr> = ''next''"
    by simp
  show ?thesis
    using findExternalActionButton_exclusions[OF found] found unfolding l by blast
qed

subsection \<open>External application flow\<close>

lemma withIteration_simps:
  "returned (withIteration it r) = returned r"
  "exitSite (withIteration it r) = exitSite r"
  "iterations (withIteration it r) = it # iterations r"
  by (simp_all add: withIteration_def)

lemma recordClick_simps:
  "clickedAtLeastOneAction (recordClick st bf af l)"
  "noProgressStreak (recordClick st bf af l) = (if af = bf then noProgressStreak st + 1 else 0)"
  by (simp_all add: recordClick_def Let_def)

lemma failedOrSkipped_clicked: "clickedAtLeastOneAction st \<Longrightarrow> failedOrSkipped st = Failed"
  by (simp add: failedOrSkipped_def)

declare externalLoop.simps [simp del]

text \<open>The state with which the iteration \<open>step\<close> calls the next one, when it does.\<close>

lemma externalLoop_step:
  "(iterations (externalLoop m b st step) = [] \<and> exitSite (externalLoop m b st step) \<noteq> ExitNoProgress)
   \<or> (\<exists>it. iterations (externalLoop m b st step) = [it] \<and> \<not> isClick it
          \<and> exitSite (externalLoop m b st step) \<noteq> ExitNoProgress)
   \<or> (iterations (externalLoop m b st step) = [ClickedNoProgress]
        \<and> exitSite (externalLoop m b st step) = ExitNoProgress
        \<and> returned (externalLoop m b st step) = Failed
        \<and> 3 \<le> noProgressStreak st + 1)
   \<or> (\<exists>it st'. step < 14
        \<and> externalLoop m b st step = withIteration it (externalLoop m b st' (step + 1))
        \<and> ((it = ClickedNoProgress \<and> noProgressStreak st' = noProgressStreak st + 1)
            \<or> (it = ClickedWithProgress \<and> noProgressStreak st' = 0))
        \<and> noProgressStreak st' < 3 \<and> clickedAtLeastOneAction st')"
  (is "?A \<or> ?B \<or> ?C \<or> ?D")
proof -
  define ob where "ob = observe b step"
  define bf where "bf = getPageFingerprint (afterFill ob)"
  define af where "af = getPageFingerprint (afterClick ob)"
  define ex where "ex = (case attemptedActionsByFingerprint st bf of None \<Rightarrow> {} | Some sigs \<Rightarrow> sigs)"
  define found where "found = findExternalActionButton m (afterFill ob) ex"
  define lbl where "lbl = (\<lambda>c::candidate. if label c \<noteq> [] then label c else getLocatorText (locator c))"
  define reach where "reach \<longleftrightarrow> step < 14 \<and> \<not> isClosed (atEntry ob) \<and> \<not> isExternalLoginRequired (atEntry ob)
      \<and> \<not> isExternalVerificationGate (atEntry ob) \<and> \<not> isExternalApplicationSubmitted (afterFill ob)
      \<and> found \<noteq> None \<and> clickOk ob"
  note defs = ob_def bf_def af_def ex_def found_def lbl_def
  show ?thesis
  proof (cases reach)
    case False
    then have "?A \<or> ?B"
      unfolding reach_def defs
      by (subst (1 2 3 4) externalLoop.simps)
         (auto simp: Let_def afterLoop_def split: option.splits)
    then show ?thesis by blast
  next
    case True
    then obtain c where c: "found = Some c" unfolding reach_def by auto
    define st' where "st' = recordClick st bf af (lbl c)"
    define it where "it = (if af = bf then ClickedNoProgress else ClickedWithProgress)"
    have streak: "noProgressStreak st' = (if af = bf then noProgressStreak st + 1 else 0)"
      and clicked: "clickedAtLeastOneAction st'"
      by (simp_all add: st'_def recordClick_simps)
    show ?thesis
    proof (cases "3 \<le> noProgressStreak st'")
      case True
      then have same: "af = bf" using streak by (auto split: if_splits)
      have "externalLoop m b st step =
              \<lparr> returned = failedOrSkipped st', exitSite = ExitNoProgress, iterations = [it] \<rparr>"
        using \<open>reach\<close> c True unfolding reach_def st'_def it_def defs
        by (subst externalLoop.simps) (simp add: Let_def)
      then have ?C using same True streak clicked
        by (simp add: it_def failedOrSkipped_clicked)
      then show ?thesis by blast
    next
      case False
      have "externalLoop m b st step = withIteration it (externalLoop m b st' (step + 1))"
        using \<open>reach\<close> c False unfolding reach_def st'_def it_def defs
        by (subst externalLoop.simps) (simp add: Let_def)
      moreover have "step < 14" using \<open>reach\<close> by (simp add: reach_def)
      moreover have "(it = ClickedNoProgress \<and> noProgressStreak st' = noProgressStreak st + 1)
            \<or> (it = ClickedWithProgress \<and> noProgressStreak st' = 0)"
        using streak by (simp add: it_def)
      moreover have "noProgressStreak st' < 3" using False by simp
      ultimately have ?D using clicked by blast
      then show ?thesis by blast
    qed
  qed
qed

lemma streakAfter_append: "streakAfter k (xs @ ys) = streakAfter (streakAfter k xs) ys"
  by (induction k xs rule: streakAfter.induct) simp_all

lemma streakAfter_not_click: "\<not> isClick it \<Longrightarrow> streakAfter k [it] = k"
  by (cases it) simp_all

lemma externalLoop_invariant:
  "noProgressStreak st < 3 \<Longrightarrow>
   (\<forall>n < length (iterations (externalLoop m b st step)).
       streakAfter (noProgressStreak st) (take n (iterations (externalLoop m b st step))) < 3)
   \<and> (exitSite (externalLoop m b st step) = ExitNoProgress
        \<longleftrightarrow> 3 \<le> streakAfter (noProgressStreak st) (iterations (externalLoop m b st step)))
   \<and> (exitSite (externalLoop m b st step) = ExitNoProgress
        \<longrightarrow> returned (externalLoop m b st step) = Failed)"
proof (induction "14 - step" arbitrary: st step)
  case 0
  then have "\<not> step < 14" by simp
  then have "externalLoop m b st step = afterLoop b st []"
    by (subst externalLoop.simps) simp
  then show ?case using "0.prems" by (simp add: afterLoop_def)
next
  case (Suc k)
  let ?r = "externalLoop m b st step"
  from externalLoop_step[of m b st step]
  consider (none) "iterations ?r = []" "exitSite ?r \<noteq> ExitNoProgress"
    | (one) it where "iterations ?r = [it]" "\<not> isClick it" "exitSite ?r \<noteq> ExitNoProgress"
    | (stuck) "iterations ?r = [ClickedNoProgress]" "exitSite ?r = ExitNoProgress"
        "returned ?r = Failed" "3 \<le> noProgressStreak st + 1"
    | (more) it st' where "step < 14" "?r = withIteration it (externalLoop m b st' (step + 1))"
        "(it = ClickedNoProgress \<and> noProgressStreak st' = noProgressStreak st + 1)
            \<or> (it = ClickedWithProgress \<and> noProgressStreak st' = 0)"
        "noProgressStreak st' < 3"
    by blast
  then show ?case
  proof cases
    case none
    then show ?thesis using Suc.prems by simp
  next
    case (one it)
    then show ?thesis using Suc.prems by (simp add: streakAfter_not_click)
  next
    case stuck
    then show ?thesis using Suc.prems by simp
  next
    case (more it st')
    let ?r' = "externalLoop m b st' (step + 1)"
    have k: "k = 14 - (step + 1)" using Suc.hyps(2) by simp
    note IH = Suc.hyps(1)[OF k more(4)]
    have its: "iterations ?r = it # iterations ?r'" and ex: "exitSite ?r = exitSite ?r'"
      and ret: "returned ?r = returned ?r'"
      using more(2) by (simp_all add: withIteration_simps)
    have sa: "streakAfter (noProgressStreak st) (it # xs) = streakAfter (noProgressStreak st') xs" for xs
      using more(3) by auto
    have "streakAfter (noProgressStreak st) (take n (iterations ?r)) < 3"
      if "n < length (iterations ?r)" for n
    proof (cases n)
      case 0
      then show ?thesis using Suc.prems by simp
    next
      case (Suc n')
      then have "n' < length (iterations ?r')" using that its by simp
      then show ?thesis using IH Suc its sa by simp
    qed
    then show ?thesis using IH its ex ret sa by simp
  qed
qed

lemma take3_nth:
  assumes "i + 2 < length xs"
  shows "take (i + 3) xs = take i xs @ [xs ! i, xs ! (i + 1), xs ! (i + 2)]"
proof -
  have "take (i + 3) xs = take (Suc (Suc (Suc i))) xs" by (simp add: numeral_3_eq_3)
  also have "\<dots> = take (Suc (Suc i)) xs @ [xs ! (Suc (Suc i))]"
    using assms by (simp add: take_Suc_conv_app_nth)
  also have "take (Suc (Suc i)) xs = take (Suc i) xs @ [xs ! (Suc i)]"
    using assms by (simp add: take_Suc_conv_app_nth)
  also have "take (Suc i) xs = take i xs @ [xs ! i]"
    using assms by (simp add: take_Suc_conv_app_nth)
  finally show ?thesis by simp
qed

lemma streakAfter_bound: "ClickedNoProgress \<notin> set its \<Longrightarrow> streakAfter k its \<le> k"
  by (induction k its rule: streakAfter.induct) (auto intro: le_trans)

lemma initial_streak: "noProgressStreak initialFlowState = 0"
  by (simp add: initialFlowState_def)

text \<open>
  Claim C2. In a run of \<open>completeExternalApplication\<close>, whenever three iterations in a row
  each click an action and find the page fingerprint unchanged, the run ends with the third
  of them: no further iteration is started, the function returns through the no-progress
  check, and the outcome is \<open>Failed\<close> when an action was clicked and \<open>Skipped\<close> when none was;
  as the three iterations clicked, it is \<open>Failed\<close>.
\<close>

theorem completeExternalApplication_no_progress_terminates:
  assumes "i + 2 < length (iterations (completeExternalApplication m b))"
    and "iterations (completeExternalApplication m b) ! i = ClickedNoProgress"
    and "iterations (completeExternalApplication m b) ! (i + 1) = ClickedNoProgress"
    and "iterations (completeExternalApplication m b) ! (i + 2) = ClickedNoProgress"
  shows "length (iterations (completeExternalApplication m b)) = i + 3
    \<and> exitSite (completeExternalApplication m b) = ExitNoProgress
    \<and> returned (completeExternalApplication m b)
        = (if list_ex isClick (iterations (completeExternalApplication m b)) then Failed else Skipped)
    \<and> returned (completeExternalApplication m b) = Failed"
proof -
  let ?r = "completeExternalApplication m b"
  let ?its = "iterations ?r"
  have r: "?r = externalLoop m b initialFlowState 0"
    by (simp add: completeExternalApplication_def)
  have inv: "\<forall>n < length ?its. streakAfter 0 (take n ?its) < 3"
    "exitSite ?r = ExitNoProgress \<longleftrightarrow> 3 \<le> streakAfter 0 ?its"
    "exitSite ?r = ExitNoProgress \<longrightarrow> returned ?r = Failed"
    using externalLoop_invariant[of initialFlowState m b 0] unfolding r initial_streak by simp_all
  have "take (i + 3) ?its = take i ?its @ [ClickedNoProgress, ClickedNoProgress, ClickedNoProgress]"
    using take3_nth[OF assms(1)] assms(2-4) by simp
  then have three: "3 \<le> streakAfter 0 (take (i + 3) ?its)"
    by (simp add: streakAfter_append)
  then have "\<not> i + 3 < length ?its" using inv(1) by (meson not_less)
  then have len: "length ?its = i + 3" using assms(1) by simp
  then have "3 \<le> streakAfter 0 ?its" using three by simp
  then have ex: "exitSite ?r = ExitNoProgress" and ret: "returned ?r = Failed"
    using inv(2,3) by simp_all
  have "?its ! i \<in> set ?its" using assms(1) by simp
  then have "ClickedNoProgress \<in> set ?its" using assms(2) by simp
  moreover have "isClick ClickedNoProgress" by simp
  ultimately have "list_ex isClick ?its" unfolding list_ex_iff by blast
  then show ?thesis using len ex ret by simp
qed

theorem completeExternalApplication_no_progress_witness:
  "iterations (completeExternalApplication None stuckBrowser)
      = [ClickedNoProgress, ClickedNoProgress, ClickedNoProgress]
   \<and> exitSite (completeExternalApplication None stuckBrowser) = ExitNoProgress
   \<and> returned (completeExternalApplication None stuckBrowser) = Failed"
proof -
  have its: "iterations (completeExternalApplication None stuckBrowser)
      = [ClickedNoProgress, ClickedNoProgress, ClickedNoProgress]" by code_simp
  have "0 + 2 < length (iterations (completeExternalApplication None stuckBrowser))"
    "iterations (completeExternalApplication None stuckBrowser) ! 0 = ClickedNoProgress"
    "iterations (completeExternalApplication None stuckBrowser) ! (0 + 1) = ClickedNoProgress"
    "iterations (completeExternalApplication None stuckBrowser) ! (0 + 2) = ClickedNoProgress"
    unfolding its by simp_all
  from completeExternalApplication_no_progress_terminates[OF this] its
  show ?thesis by simp
qed

text \<open>
  Claim C9. When \<open>completeExternalApplication\<close> returns through the check
  \<^verbatim>\<open>noProgressStreak >= 3\<close>, some iteration of the run has clicked an action without
  progress, and the outcome is \<open>Failed\<close>: the alternative \<open>Skipped\<close> of that \<^verbatim>\<open>return\<close> is never
  taken.
\<close>

theorem completeExternalApplication_no_progress_exit_failed:
  assumes "exitSite (completeExternalApplication m b) = ExitNoProgress"
  shows "ClickedNoProgress \<in> set (iterations (completeExternalApplication m b))
    \<and> returned (completeExternalApplication m b) = Failed
    \<and> returned (completeExternalApplication m b) \<noteq> Skipped"
proof -
  let ?r = "completeExternalApplication m b"
  have r: "?r = externalLoop m b initialFlowState 0"
    by (simp add: completeExternalApplication_def)
  have inv: "exitSite ?r = ExitNoProgress \<longleftrightarrow> 3 \<le> streakAfter 0 (iterations ?r)"
    "exitSite ?r = ExitNoProgress \<longrightarrow> returned ?r = Failed"
    using externalLoop_invariant[of initialFlowState m b 0] unfolding r initial_streak by simp_all
  have "3 \<le> streakAfter 0 (iterations ?r)" using inv(1) assms by simp
  then have "ClickedNoProgress \<in> set (iterations ?r)"
    using streakAfter_bound[of "iterations ?r" 0] by fastforce
  then show ?thesis using inv(2) assms by simp
qed

theorem completeExternalApplication_no_progress_exit_witness:
  "exitSite (completeExternalApplication None stuckBrowser) = ExitNoProgress
   \<and> ClickedNoProgress \<in> set (iterations (completeExternalApplication None stuckBrowser))
   \<and> returned (completeExternalApplication None stuckBrowser) = Failed"
proof -
  have "exitSite (completeExternalApplication None stuckBrowser) = ExitNoProgress" by code_simp
  from completeExternalApplication_no_progress_exit_failed[OF this] this
  show ?thesis by simp
qed

text \<open>
  Claim C3, amended. \<open>isExternalLoginRequired\<close> classifies a page as a login wall exactly
  when its URL contains a login token (\<^verbatim>\<open>login\<close>, \<^verbatim>\<open>sign-in\<close>, \<^verbatim>\<open>signin\<close>, \<^verbatim>\<open>auth\<close>), or its
  body text shows both a sign-in cue and a credential cue. When it fires in the first
  iteration, on a page that is not closed, \<open>completeExternalApplication\<close> returns \<open>Skipped\<close>
  in that iteration, before any call of \<open>autoFillExternalForm\<close>.
\<close>

theorem isExternalLoginRequired_skips:
  "(isExternalLoginRequired p \<longleftrightarrow> urlHasLoginToken p \<or> (hasLoginCue p \<and> hasCredentialCue p))
   \<and> (\<not> isClosed (atEntry (observe b 0)) \<and> isExternalLoginRequired (atEntry (observe b 0))
        \<longrightarrow> completeExternalApplication m b
              = \<lparr> returned = Skipped, exitSite = ExitLoginRequired, iterations = [StoppedAtLogin] \<rparr>
          \<and> \<not> list_ex callsAutoFill (iterations (completeExternalApplication m b)))"
proof (intro conjI impI)
  show "isExternalLoginRequired p \<longleftrightarrow> urlHasLoginToken p \<or> (hasLoginCue p \<and> hasCredentialCue p)"
    by (simp add: isExternalLoginRequired_def)
next
  assume a: "\<not> isClosed (atEntry (observe b 0)) \<and> isExternalLoginRequired (atEntry (observe b 0))"
  then show r: "completeExternalApplication m b
      = \<lparr> returned = Skipped, exitSite = ExitLoginRequired, iterations = [StoppedAtLogin] \<rparr>"
    unfolding completeExternalApplication_def
    by (subst externalLoop.simps) (simp add: Let_def)
  show "\<not> list_ex callsAutoFill (iterations (completeExternalApplication m b))"
    unfolding r by simp
qed

theorem isExternalLoginRequired_skips_witness:
  "urlHasLoginToken loginWallPage \<and> hasLoginCue loginWallPage \<and> hasCredentialCue loginWallPage
   \<and> returned (completeExternalApplication None loginWallBrowser) = Skipped
   \<and> iterations (completeExternalApplication None loginWallBrowser) = [StoppedAtLogin]"
proof -
  have 1: "urlHasLoginToken loginWallPage" "hasLoginCue loginWallPage" "hasCredentialCue loginWallPage"
    by code_simp+
  have 2: "\<not> isClosed (atEntry (observe loginWallBrowser 0))" by code_simp
  have 3: "atEntry (observe loginWallBrowser 0) = loginWallPage"
    by (simp add: loginWallBrowser_def always_def)
  have "isExternalLoginRequired loginWallPage"
    using isExternalLoginRequired_skips[of loginWallPage loginWallBrowser None] 1 by blast
  then have "completeExternalApplication None loginWallBrowser
      = \<lparr> returned = Skipped, exitSite = ExitLoginRequired, iterations = [StoppedAtLogin] \<rparr>"
    using isExternalLoginRequired_skips[of loginWallPage loginWallBrowser None] 2 3 by simp
  then show ?thesis using 1 by simp
qed

text \<open>
  The claim C3 as stated, that the detector fires exactly when the URL has a login token
  and the body text shows both cues, fails in both directions of the conjunction: a login
  URL alone fires it, and so do the two cues of the body text on a page whose URL has no
  token.
\<close>

theorem isExternalLoginRequired_counterexample:
  "isExternalLoginRequired loginUrlPage
   \<and> \<not> (urlHasLoginToken loginUrlPage \<and> hasLoginCue loginUrlPage \<and> hasCredentialCue loginUrlPage)
   \<and> isExternalLoginRequired loginBodyPage
   \<and> \<not> (urlHasLoginToken loginBodyPage \<and> hasLoginCue loginBodyPage \<and> hasCredentialCue loginBodyPage)"
  by code_simp

subsection \<open>Job card iteration\<close>

lemma catchBlock_keeps:
  "applyAttempts (cardSession (catchBlock ob s)) = applyAttempts s"
  "processedJobKeys (cardSession (catchBlock ob s)) = processedJobKeys s"
  by (simp_all add: catchBlock_def Let_def)

lemma countExternal_keeps:
  "applyAttempts (countExternal st s) = applyAttempts s"
  "processedJobKeys (countExternal st s) = processedJobKeys s"
  by (simp_all add: countExternal_def)

lemma countEasy_keeps:
  "applyAttempts (countEasy r s) = applyAttempts s"
  "processedJobKeys (countEasy r s) = processedJobKeys s"
  by (simp_all add: countEasy_def)

lemmas keeps = catchBlock_keeps countExternal_keeps countEasy_keeps

lemma processCard_duplicate:
  assumes "pageAvailable ob" and "i < activeCount ob" and "\<not> openFails ob"
    and "getJobKey (captureCurrentJobContext ob (jobLabel ob i)) \<in> processedJobKeys s"
  shows "processCard ob i s
           = Continue (s\<lparr> currentJobContext := captureCurrentJobContext ob (jobLabel ob i) \<rparr>)"
  using assms by (simp add: processCard_def Let_def)

lemma processCard_keys:
  "(applyAttempts (cardSession (processCard ob i s)) = applyAttempts s
      \<and> processedJobKeys (cardSession (processCard ob i s)) = processedJobKeys s)
   \<or> (\<exists>k. k \<notin> processedJobKeys s
        \<and> applyAttempts (cardSession (processCard ob i s)) = applyAttempts s @ [k]
        \<and> processedJobKeys (cardSession (processCard ob i s)) = insert k (processedJobKeys s))"
proof -
  define k where "k = getJobKey (captureCurrentJobContext ob (jobLabel ob i))"
  consider (nopage) "\<not> pageAvailable ob"
    | (ended) "pageAvailable ob" "activeCount ob \<le> i"
    | (unopened) "pageAvailable ob" "i < activeCount ob" "openFails ob"
    | (duplicate) "pageAvailable ob" "i < activeCount ob" "\<not> openFails ob" "k \<in> processedJobKeys s"
    | (fresh) "pageAvailable ob" "i < activeCount ob" "\<not> openFails ob" "k \<notin> processedJobKeys s"
    by linarith
  then show ?thesis
  proof cases
    case nopage
    then show ?thesis by (simp add: processCard_def keeps)
  next
    case ended
    then show ?thesis by (simp add: processCard_def keeps)
  next
    case unopened
    then show ?thesis by (simp add: processCard_def keeps)
  next
    case duplicate
    then show ?thesis unfolding k_def by (simp add: processCard_def Let_def keeps)
  next
    case fresh
    then have "applyAttempts (cardSession (processCard ob i s)) = applyAttempts s @ [k]
        \<and> processedJobKeys (cardSession (processCard ob i s)) = insert k (processedJobKeys s)"
      unfolding k_def by (simp add: processCard_def Let_def keeps)
    then show ?thesis using fresh(4) by blast
  qed
qed

lemma processCard_attempts:
  assumes "distinct (applyAttempts s)" and "set (applyAttempts s) = processedJobKeys s"
  shows "distinct (applyAttempts (cardSession (processCard ob i s)))"
    and "set (applyAttempts (cardSession (processCard ob i s)))
           = processedJobKeys (cardSession (processCard ob i s))"
  using processCard_keys[of ob i s] assms by auto

declare applyLoop.simps [simp del]

lemma applyLoop_attempts:
  "distinct (applyAttempts s) \<Longrightarrow> set (applyAttempts s) = processedJobKeys s \<Longrightarrow>
   distinct (applyAttempts (finalSession (applyLoop cs m n s i)))"
proof (induction cs m n s i rule: applyLoop.induct)
  case (1 cs m n s i)
  show ?case
  proof (cases "int i < n \<and> int (applied s) < m")
    case False
    have "applyLoop cs m n s i = Returned s"
      by (subst applyLoop.simps) (simp add: False)
    then show ?thesis using "1.prems" by simp
  next
    case True
    note inv = processCard_attempts[OF "1.prems", of "cs i" i]
    show ?thesis
    proof (cases "processCard (cs i) i s")
      case (Continue s')
      then have "distinct (applyAttempts s')" "set (applyAttempts s') = processedJobKeys s'"
        using inv by simp_all
      then have "distinct (applyAttempts (finalSession (applyLoop cs m n s' (i + 1))))"
        using "1.IH"[OF True Continue] by simp
      then show ?thesis using True Continue by (subst applyLoop.simps) simp
    next
      case (Break s')
      then show ?thesis using True inv by (subst applyLoop.simps) simp
    next
      case (Throw s')
      then show ?thesis using True inv by (subst applyLoop.simps) simp
    qed
  qed
qed

text \<open>
  Claim C5. When the loop of \<open>applyEasyApplyJobs\<close> opens a card whose job key is already in
  \<^verbatim>\<open>processedJobKeys\<close>, the iteration ends there: no apply button is looked for, and the
  counters \<open>applied\<close>, \<open>failed\<close> and \<open>manualHelp\<close> and the set of keys stay as they are. Over
  a whole run, the job keys for which an apply attempt was started are pairwise distinct:
  a job key is processed at most once in a session.
\<close>

theorem applyEasyApplyJobs_duplicate_skipped:
  "(pageAvailable ob \<and> i < activeCount ob \<and> \<not> openFails ob
      \<and> getJobKey (captureCurrentJobContext ob (jobLabel ob i)) \<in> processedJobKeys s
      \<longrightarrow> (\<exists>s'. processCard ob i s = Continue s'
             \<and> applied s' = applied s \<and> failed s' = failed s \<and> manualHelp s' = manualHelp s
             \<and> applyAttempts s' = applyAttempts s \<and> processedJobKeys s' = processedJobKeys s))
   \<and> distinct (applyAttempts (finalSession (applyEasyApplyJobs run jc maxApplications)))"
proof (intro conjI impI)
  assume "pageAvailable ob \<and> i < activeCount ob \<and> \<not> openFails ob
      \<and> getJobKey (captureCurrentJobContext ob (jobLabel ob i)) \<in> processedJobKeys s"
  then have "processCard ob i s
           = Continue (s\<lparr> currentJobContext := captureCurrentJobContext ob (jobLabel ob i) \<rparr>)"
    by (simp add: processCard_duplicate)
  then show "\<exists>s'. processCard ob i s = Continue s'
             \<and> applied s' = applied s \<and> failed s' = failed s \<and> manualHelp s' = manualHelp s
             \<and> applyAttempts s' = applyAttempts s \<and> processedJobKeys s' = processedJobKeys s"
    by simp
next
  show "distinct (applyAttempts (finalSession (applyEasyApplyJobs run jc maxApplications)))"
    by (auto simp: applyEasyApplyJobs_def Let_def applyLoop_attempts split: option.splits)
qed

theorem applyEasyApplyJobs_duplicate_witness:
  "getJobKey (captureCurrentJobContext (exCards 1) (jobLabel (exCards 1) 1)) \<in> processedJobKeys afterFirstCard
   \<and> (\<exists>s'. processCard (exCards 1) 1 afterFirstCard = Continue s'
          \<and> applied s' = 1 \<and> failed s' = 0 \<and> manualHelp s' = 0
          \<and> applyAttempts s' = [''backend engineer|acme|sydney, australia''])
   \<and> applyAttempts (finalSession (applyEasyApplyJobs exRun exJob 5))
        = [''backend engineer|acme|sydney, australia'', ''data engineer|acme|sydney, australia'']"
proof -
  have 1: "pageAvailable (exCards 1)" "1 < activeCount (exCards 1)" "\<not> openFails (exCards 1)"
    by code_simp+
  have 2: "getJobKey (captureCurrentJobContext (exCards 1) (jobLabel (exCards 1) 1))
      \<in> processedJobKeys afterFirstCard" by code_simp
  have 3: "applyAttempts (finalSession (applyEasyApplyJobs exRun exJob 5))
        = [''backend engineer|acme|sydney, australia'', ''data engineer|acme|sydney, australia'']"
    by code_simp
  have 4: "applied afterFirstCard = 1" "failed afterFirstCard = 0" "manualHelp afterFirstCard = 0"
    "applyAttempts afterFirstCard = [''backend engineer|acme|sydney, australia'']"
    by (simp_all add: afterFirstCard_def)
  from applyEasyApplyJobs_duplicate_skipped[of "exCards 1" 1 afterFirstCard exRun exJob 5] 1 2
  obtain s' where "processCard (exCards 1) 1 afterFirstCard = Continue s'"
    "applied s' = applied afterFirstCard" "failed s' = failed afterFirstCard"
    "manualHelp s' = manualHelp afterFirstCard" "applyAttempts s' = applyAttempts afterFirstCard"
    by blast
  then show ?thesis using 2 3 4 by auto
qed

subsection \<open>Boolean questions of a form\<close>

lemma length_selectRadio: "length (selectRadio i rs) = length rs"
  by (simp add: selectRadio_def)

lemma nth_selectRadio:
  "j < length rs \<Longrightarrow>
   selectRadio i rs ! j =
     (if j = i then (rs ! j)\<lparr> checked := True \<rparr>
      else if sameRadioGroup (rs ! j) (rs ! i) then (rs ! j)\<lparr> checked := False \<rparr>
      else rs ! j)"
  by (simp add: selectRadio_def)

lemma length_checkRadio: "length (checkRadio i rs) = length rs"
  by (simp add: checkRadio_def length_selectRadio)

lemma sameStatics_refl: "sameStatics rs rs"
  by (simp add: sameStatics_def)

lemma sameStatics_trans: "sameStatics a b \<Longrightarrow> sameStatics b c \<Longrightarrow> sameStatics a c"
  by (simp add: sameStatics_def)

lemma sameStatics_checkRadio: "sameStatics rs (checkRadio i rs)"
  by (simp add: sameStatics_def checkRadio_def length_selectRadio nth_selectRadio)

lemma sameStatics_answerGroup: "sameStatics rs (answerGroup e rs g)"
  by (simp add: answerGroup_def Let_def sameStatics_refl sameStatics_checkRadio
      split: attempt.splits radio_choice.splits)

lemma radioLabelText_statics:
  "sameStatics rs rs' \<Longrightarrow> i < length rs \<Longrightarrow> radioLabelText (rs' ! i) idv = radioLabelText (rs ! i) idv"
proof -
  assume "sameStatics rs rs'" and "i < length rs"
  then have "forLabelText (rs' ! i) = forLabelText (rs ! i)"
    and "wrapLabelText (rs' ! i) = wrapLabelText (rs ! i)"
    by (simp_all add: sameStatics_def)
  then show ?thesis by (simp add: radioLabelText_def Let_def)
qed

lemma findPreferredRadio_statics:
  "sameStatics rs rs' \<Longrightarrow> findPreferredRadio p rs' ms = findPreferredRadio p rs ms"
proof (induction ms)
  case Nil
  then show ?case by simp
next
  case (Cons i ms)
  have len: "length rs' = length rs" using Cons.prems by (simp add: sameStatics_def)
  show ?case
  proof (cases "i < length rs")
    case False
    then show ?thesis using len by simp
  next
    case True
    then have "idAttr (rs' ! i) = idAttr (rs ! i)" using Cons.prems by (simp add: sameStatics_def)
    then show ?thesis
      using True len Cons.IH[OF Cons.prems] radioLabelText_statics[OF Cons.prems True]
      by (simp split: attempt.splits)
  qed
qed

lemma expectedRadio_mem:
  "members g \<noteq> [] \<Longrightarrow> expectedRadio e rs g \<in> set (members g)"
  by (auto simp: expectedRadio_def find_Some_iff split: option.splits)

text \<open>On radios that can be read, the loop of the source finds the first matching label.\<close>

lemma findPreferredRadio_find:
  "\<forall>i \<in> set ms. i < length rs \<and> idAttr (rs ! i) \<noteq> Throws \<Longrightarrow>
   findPreferredRadio p rs ms =
     (case List.find (\<lambda>i. includesStr (radioLabel (rs ! i)) p) ms of
        Some i \<Rightarrow> Matched i | None \<Rightarrow> NoMatch)"
  by (induction ms) (auto simp: radioLabel_def split: attempt.splits)

lemma answerGroup_expected:
  assumes "groupReadable rs0 g" and "sameStatics rs0 rs" and "members g \<noteq> []"
  shows "answerGroup e rs g = checkRadio (expectedRadio e rs0 g) rs"
proof -
  obtain t where t: "groupText g = Returns t"
    using assms(1) by (cases "groupText g") (auto simp: groupReadable_def)
  let ?p = "getPreferredAnswer e (toLowerCase (orElse t []))"
  have p: "preferredFor e g = ?p" using t by (simp add: preferredFor_def)
  have "findPreferredRadio ?p rs (members g) = findPreferredRadio ?p rs0 (members g)"
    using assms(2) by (rule findPreferredRadio_statics)
  also have "\<dots> = (case List.find (\<lambda>i. includesStr (radioLabel (rs0 ! i)) ?p) (members g) of
        Some i \<Rightarrow> Matched i | None \<Rightarrow> NoMatch)"
    using assms(1) by (intro findPreferredRadio_find) (simp add: groupReadable_def)
  finally show ?thesis using t p assms(1,3)
    by (simp add: answerGroup_def expectedRadio_def groupReadable_def Let_def split: option.splits)
qed

text \<open>What checking the radio \<open>c\<close> of a readable group does to the selection.\<close>

lemma checkRadio_effect:
  assumes "c < length rs" and "responds (rs ! c)" and "j < length rs"
  shows "checked (checkRadio c rs ! j) =
           (if checked (rs ! c) then checked (rs ! j)
            else if j = c then True
            else if sameRadioGroup (rs ! j) (rs ! c) then False
            else checked (rs ! j))"
  using assms by (simp add: checkRadio_def nth_selectRadio)

lemma answerGroup_empty: "members g = [] \<Longrightarrow> answerGroup e rs g = rs"
  by (simp add: answerGroup_def Let_def split: attempt.splits)

lemma filter_singleton:
  "distinct xs \<Longrightarrow> c \<in> set xs \<Longrightarrow> (\<forall>i \<in> set xs. P i \<longleftrightarrow> i = c) \<Longrightarrow> filter P xs = [c]"
proof (induction xs)
  case Nil
  then show ?case by simp
next
  case (Cons x xs)
  show ?case
  proof (cases "x = c")
    case True
    then have "\<forall>i \<in> set xs. \<not> P i" using Cons.prems by auto
    then have "filter P xs = []" by (simp add: filter_empty_conv)
    then show ?thesis using True Cons.prems by simp
  next
    case False
    then show ?thesis using Cons by auto
  qed
qed

lemma namesSeparateGroupsD:
  "namesSeparateGroups rs gs \<Longrightarrow> a < length gs \<Longrightarrow> b < length gs \<Longrightarrow>
   i \<in> set (members (gs ! a)) \<Longrightarrow> j \<in> set (members (gs ! b)) \<Longrightarrow>
   sameRadioGroup (rs ! i) (rs ! j) = (a = b)"
  by (simp add: namesSeparateGroups_def)

lemma groups_invariant:
  assumes wf: "\<forall>g \<in> set gs. groupReadable rs0 g" and sep: "namesSeparateGroups rs0 gs"
  shows "k \<le> length gs \<Longrightarrow>
    sameStatics rs0 (foldl (answerGroup e) rs0 (take k gs))
    \<and> (\<forall>a < k. members (gs ! a) \<noteq> [] \<longrightarrow>
          (\<forall>i \<in> set (members (gs ! a)).
             checked (foldl (answerGroup e) rs0 (take k gs) ! i) \<longleftrightarrow> i = expectedRadio e rs0 (gs ! a)))
    \<and> (\<forall>a. k \<le> a \<and> a < length gs \<longrightarrow>
          (\<forall>i \<in> set (members (gs ! a)).
             checked (foldl (answerGroup e) rs0 (take k gs) ! i) = checked (rs0 ! i)))"
proof (induction k)
  case 0
  then show ?case by (simp add: sameStatics_refl)
next
  case (Suc k)
  let ?rs = "foldl (answerGroup e) rs0 (take k gs)"
  let ?g = "gs ! k"
  let ?rs' = "answerGroup e ?rs ?g"
  have k: "k < length gs" using Suc.prems by simp
  have step: "foldl (answerGroup e) rs0 (take (Suc k) gs) = ?rs'"
    using k by (simp add: take_Suc_conv_app_nth)
  from Suc.IH k have st: "sameStatics rs0 ?rs"
    and settled: "\<And>a i. a < k \<Longrightarrow> members (gs ! a) \<noteq> [] \<Longrightarrow> i \<in> set (members (gs ! a)) \<Longrightarrow>
                 checked (?rs ! i) \<longleftrightarrow> i = expectedRadio e rs0 (gs ! a)"
    and pending: "\<And>a i. k \<le> a \<Longrightarrow> a < length gs \<Longrightarrow> i \<in> set (members (gs ! a)) \<Longrightarrow>
                 checked (?rs ! i) = checked (rs0 ! i)"
    by simp_all
  have rd: "groupReadable rs0 ?g" using wf k by simp
  have st': "sameStatics rs0 ?rs'"
    using st sameStatics_answerGroup[of ?rs e ?g] by (rule sameStatics_trans)
  show ?case
  proof (cases "members ?g = []")
    case True
    then have same: "?rs' = ?rs" by (rule answerGroup_empty)
    have "\<And>a i. a < Suc k \<Longrightarrow> members (gs ! a) \<noteq> [] \<Longrightarrow> i \<in> set (members (gs ! a)) \<Longrightarrow>
                 checked (?rs ! i) \<longleftrightarrow> i = expectedRadio e rs0 (gs ! a)"
      using settled True by (metis less_Suc_eq)
    moreover have "checked (?rs ! i) = checked (rs0 ! i)"
      if "Suc k \<le> a" "a < length gs" "i \<in> set (members (gs ! a))" for a i
      using pending[of a i] that by simp
    ultimately show ?thesis unfolding step same using st by blast
  next
    case False
    let ?c = "expectedRadio e rs0 ?g"
    have c: "?c \<in> set (members ?g)" using False by (rule expectedRadio_mem)
    have rs': "?rs' = checkRadio ?c ?rs" using rd st False by (rule answerGroup_expected)
    have len: "length ?rs = length rs0" using st by (simp add: sameStatics_def)
    have inr: "i < length rs0" if "a < length gs" "i \<in> set (members (gs ! a))" for a i
    proof -
      have "groupReadable rs0 (gs ! a)" using wf that(1) by simp
      then show ?thesis using that(2) by (simp add: groupReadable_def)
    qed
    have c_in: "?c < length ?rs" using inr[OF k c] len by simp
    have c_resp: "responds (?rs ! ?c)"
      using st rd c c_in len by (simp add: sameStatics_def groupReadable_def)
    have name: "\<And>i j. i < length rs0 \<Longrightarrow> j < length rs0 \<Longrightarrow>
        sameRadioGroup (?rs ! i) (?rs ! j) = sameRadioGroup (rs0 ! i) (rs0 ! j)"
      using st by (simp add: sameStatics_def sameRadioGroup_def)
    have eff: "\<And>j. j < length rs0 \<Longrightarrow>
        checked (?rs' ! j) =
          (if checked (?rs ! ?c) then checked (?rs ! j)
           else if j = ?c then True
           else if sameRadioGroup (rs0 ! j) (rs0 ! ?c) then False
           else checked (?rs ! j))"
      unfolding rs' using checkRadio_effect[OF c_in c_resp] name len c_in by simp
    have other: "checked (?rs' ! i) = checked (?rs ! i)"
      if "a < length gs" "a \<noteq> k" "i \<in> set (members (gs ! a))" for a i
    proof -
      have "\<not> sameRadioGroup (rs0 ! i) (rs0 ! ?c)"
        using namesSeparateGroupsD[OF sep that(1) k that(3) c] that(2) by simp
      moreover have "sameRadioGroup (rs0 ! ?c) (rs0 ! ?c)"
        using namesSeparateGroupsD[OF sep k k c c] by simp
      ultimately have "i \<noteq> ?c" by auto
      moreover note \<open>\<not> sameRadioGroup (rs0 ! i) (rs0 ! ?c)\<close>
      ultimately show ?thesis using eff[OF inr[OF that(1,3)]] by simp
    qed
    have this_group: "checked (?rs' ! i) \<longleftrightarrow> i = ?c" if "i \<in> set (members ?g)" for i
    proof (cases "checked (?rs ! ?c)")
      case True
      have "checked (rs0 ! ?c)" using True pending[OF le_refl k c] by simp
      moreover have "checked (?rs' ! i) = checked (rs0 ! i)"
        using True eff[OF inr[OF k that]] pending[OF le_refl k that] by simp
      ultimately show ?thesis using rd that c by (auto simp: groupReadable_def)
    next
      case False
      have "sameRadioGroup (rs0 ! i) (rs0 ! ?c)"
        using namesSeparateGroupsD[OF sep k k that c] by simp
      then show ?thesis using False eff[OF inr[OF k that]] by simp
    qed
    have part2: "checked (?rs' ! i) \<longleftrightarrow> i = expectedRadio e rs0 (gs ! a)"
      if "a < Suc k" "members (gs ! a) \<noteq> []" "i \<in> set (members (gs ! a))" for a i
    proof (cases "a = k")
      case True
      then show ?thesis using this_group that by simp
    next
      case False
      then have "a < k" using that(1) by simp
      then show ?thesis using other[of a i] settled[of a i] that k False by simp
    qed
    have part3: "checked (?rs' ! i) = checked (rs0 ! i)"
      if "Suc k \<le> a" "a < length gs" "i \<in> set (members (gs ! a))" for a i
      using other[of a i] pending[of a i] that by simp
    show ?thesis unfolding step using st' part2 part3 by blast
  qed
qed

text \<open>
  Claim C4, amended. On a form on which nothing fails (\<open>wellFormedForm\<close>: the root is open
  and attached, the groups, their texts and the \<^verbatim>\<open>id\<close>s of their radios can be read,
  every radio responds to \<^verbatim>\<open>check()\<close> or to the forced click, and every group is one
  radio button group of the browser, with a name that is not empty, apart from those of
  the other groups, and with at most one radio selected), after
  \<open>answerRequiredBooleanQuestions\<close> every group with at least one radio has exactly one
  radio selected: the first radio whose label contains the preferred answer, and the
  first radio of the group when no label does.
\<close>

theorem answerRequiredBooleanQuestions_selects_one:
  assumes "wellFormedForm root" and "g \<in> set (groups root)" and "members g \<noteq> []"
  shows "selectedIn g (answerRequiredBooleanQuestions e root) = [expectedRadio e (radios root) g]"
proof -
  let ?gs = "groups root" and ?init = "radios root"
  let ?rs = "foldl (answerGroup e) ?init ?gs"
  have wf: "\<forall>g \<in> set ?gs. groupReadable ?init g" and sep: "namesSeparateGroups ?init ?gs"
    using assms(1) by (simp_all add: wellFormedForm_def)
  have run: "answerRequiredBooleanQuestions e root = ?rs"
    using assms(1) by (simp add: answerRequiredBooleanQuestions_def wellFormedForm_def)
  from assms(2) obtain a where a: "a < length ?gs" "?gs ! a = g" by (auto simp: in_set_conv_nth)
  from groups_invariant[OF wf sep, of "length ?gs" e]
  have st: "sameStatics ?init ?rs"
    and sel: "\<forall>i \<in> set (members g). checked (?rs ! i) \<longleftrightarrow> i = expectedRadio e ?init g"
    using a assms(3) by auto
  have rd: "groupReadable ?init g" using wf assms(2) by simp
  have "\<forall>i \<in> set (members g). i < length ?rs"
    using rd st by (simp add: groupReadable_def sameStatics_def)
  then have "\<forall>i \<in> set (members g). (i < length ?rs \<and> checked (?rs ! i)) \<longleftrightarrow> i = expectedRadio e ?init g"
    using sel by blast
  moreover have "distinct (members g)" using rd by (simp add: groupReadable_def)
  moreover have "expectedRadio e ?init g \<in> set (members g)" using assms(3) by (rule expectedRadio_mem)
  ultimately have "filter (\<lambda>i. i < length ?rs \<and> checked (?rs ! i)) (members g) = [expectedRadio e ?init g]"
    by (intro filter_singleton)
  then show ?thesis by (simp add: selectedIn_def run)
qed

theorem answerRequiredBooleanQuestions_selects_one_witness:
  "wellFormedForm exForm
   \<and> map (\<lambda>g. selectedIn g (answerRequiredBooleanQuestions exEnv exForm)) (groups exForm) = [ [1], [2], [4] ]"
proof -
  have wf: "wellFormedForm exForm" by code_simp
  have gs: "groups exForm = [exGroup ''Will you require visa sponsorship? Yes No'' [0, 1],
                 exGroup ''Are you over 18? Yes No'' [2, 3],
                 exGroup ''Preferred office A B'' [4, 5]]" by (simp add: exForm_def)
  have ex: "map (expectedRadio exEnv (radios exForm)) (groups exForm) = [1, 2, 4]" by code_simp
  have "selectedIn g (answerRequiredBooleanQuestions exEnv exForm) = [expectedRadio exEnv (radios exForm) g]"
    if "g \<in> set (groups exForm)" for g
  proof -
    have "members g \<noteq> []" using that unfolding gs by (auto simp: exGroup_def)
    with wf that show ?thesis by (rule answerRequiredBooleanQuestions_selects_one)
  qed
  then have "map (\<lambda>g. selectedIn g (answerRequiredBooleanQuestions exEnv exForm)) (groups exForm)
      = map (\<lambda>g. [expectedRadio exEnv (radios exForm) g]) (groups exForm)" by simp
  also have "\<dots> = map (\<lambda>i. [i]) (map (expectedRadio exEnv (radios exForm)) (groups exForm))"
    by (simp add: comp_def)
  also have "\<dots> = [ [1], [2], [4] ]" unfolding ex by simp
  finally show ?thesis using wf by simp
qed

text \<open>
  The claim C4 as stated fails in both directions. On a form whose only group has two
  disabled radios, none selected, the function checks the radio labelled No, the check
  and the forced click are swallowed without effect, and the group is left with no radio
  selected. On a form whose only group has two radios without a name, the radio labelled
  No selected, the function checks the radio labelled Yes; the browser does not group
  radios without a name, so both end up selected.
\<close>

theorem answerRequiredBooleanQuestions_counterexample:
  "groups disabledForm = [disabledGroup]
   \<and> members disabledGroup = [0, 1]
   \<and> selectedIn disabledGroup (answerRequiredBooleanQuestions exEnv disabledForm) = []
   \<and> groups namelessForm = [namelessGroup]
   \<and> members namelessGroup = [0, 1]
   \<and> selectedIn namelessGroup (answerRequiredBooleanQuestions exEnv namelessForm) = [0, 1]
   \<and> \<not> wellFormedForm disabledForm \<and> \<not> wellFormedForm namelessForm"
  by code_simp

end
